theory Spec2Isabelle
  imports Main
begin

section \<open>Syntax trees as JavaScript values\<close>

text \<open>
  The program (\<^verbatim>\<open>src/lib/webpack.js\<close> and its \<^verbatim>\<open>./utils\<close>) works on the tree an
  ECMAScript parser returns: plain objects, arrays and primitive values. A value is
  modelled as it is in memory:
  \<^item> \<open>JObj kvs\<close> is a plain object; \<open>kvs\<close> lists its own enumerable properties in the
    order \<^verbatim>\<open>Object.keys\<close> enumerates them (an object has every key once);
  \<^item> \<open>JArr xs\<close> is a dense array;
  \<^item> \<open>JNum n\<close> is an integer-valued number (fractions, NaN, infinities and the
    integers above \<open>2\<^sup>5\<^sup>3\<close>, which a number does not hold exactly, are outside the model),
    \<open>JStr s\<close> a string of one-byte characters;
  \<^item> \<open>JNative b\<close> is a built-in function or object, which a lookup of an inherited
    property returns (\<^verbatim>\<open>({}).toString\<close>); \<open>b\<close> is the name of the function, or
    \<^verbatim>\<open>Object.prototype\<close> and \<^verbatim>\<open>Array.prototype\<close> for the two prototype objects. A parser
    never puts one into a tree, so it only occurs in results, and as an input it is
    treated as a value without properties.

  A \<^verbatim>\<open>TypeError\<close> that the source would throw is the value \<open>Inl TypeError\<close>. A tree is
  finite, so the recursion over a tree ends; \<open>RangeError\<close>, the overflow of the call
  stack, is thrown only in the model on a store below, which can hold cycles.
\<close>

datatype jsval =
    JUndefined | JNull | JBool bool | JNum int | JStr string
  | JArr "jsval list" | JObj "(string \<times> jsval) list" | JNative string

datatype error = TypeError | RangeError

text \<open>
  \<open>own kvs k\<close> reads the own property \<open>k\<close> of an object (\<^verbatim>\<open>undefined\<close> when absent), and
  \<open>getField v k\<close> is the expression \<^verbatim>\<open>v.k\<close> for the field names of syntax nodes, none of
  which is inherited from a prototype: it throws on \<^verbatim>\<open>undefined\<close> and \<^verbatim>\<open>null\<close> and is
  \<^verbatim>\<open>undefined\<close> on every other value that is not an object.
\<close>

definition own :: "(string \<times> jsval) list \<Rightarrow> string \<Rightarrow> jsval" where
  "own kvs k = (case map_of kvs k of Some v \<Rightarrow> v | None \<Rightarrow> JUndefined)"

fun getField :: "jsval \<Rightarrow> string \<Rightarrow> error + jsval" where
  "getField JUndefined k = Inl TypeError"
| "getField JNull k = Inl TypeError"
| "getField (JObj kvs) k = Inr (own kvs k)"
| "getField v k = Inr JUndefined"

text \<open>\<^verbatim>\<open>v.length\<close> and \<^verbatim>\<open>v[0]\<close>, which arrays and strings answer themselves.\<close>

fun lengthOf :: "jsval \<Rightarrow> error + jsval" where
  "lengthOf JUndefined = Inl TypeError"
| "lengthOf JNull = Inl TypeError"
| "lengthOf (JArr xs) = Inr (JNum (int (length xs)))"
| "lengthOf (JStr s) = Inr (JNum (int (length s)))"
| "lengthOf (JObj kvs) = Inr (own kvs ''length'')"
| "lengthOf v = Inr JUndefined"

fun index0 :: "jsval \<Rightarrow> error + jsval" where
  "index0 JUndefined = Inl TypeError"
| "index0 JNull = Inl TypeError"
| "index0 (JArr xs) = Inr (case xs of [] \<Rightarrow> JUndefined | x # rest \<Rightarrow> x)"
| "index0 (JStr s) = Inr (case s of [] \<Rightarrow> JUndefined | c # rest \<Rightarrow> JStr [c])"
| "index0 (JObj kvs) = Inr (own kvs ''0'')"
| "index0 v = Inr JUndefined"

text \<open>The truth value of a value in a condition (\<^verbatim>\<open>if (v)\<close>, \<^verbatim>\<open>v || null\<close>).\<close>

fun truthy :: "jsval \<Rightarrow> bool" where
  "truthy JUndefined = False"
| "truthy JNull = False"
| "truthy (JBool b) = b"
| "truthy (JNum n) = (n \<noteq> 0)"
| "truthy (JStr s) = (s \<noteq> [])"
| "truthy v = True"

text \<open>\<^verbatim>\<open>a && b\<close> on conditions that may throw: \<open>b\<close> is not evaluated when \<open>a\<close> is false.\<close>

definition andAlso :: "error + bool \<Rightarrow> error + bool \<Rightarrow> error + bool" where
  "andAlso a b = (case a of Inl e \<Rightarrow> Inl e | Inr c \<Rightarrow> if c then b else Inr False)"

definition isType :: "jsval \<Rightarrow> string \<Rightarrow> error + bool" where
  "isType v t = (case getField v ''type'' of Inl e \<Rightarrow> Inl e | Inr ty \<Rightarrow> Inr (ty = JStr t))"

definition hasLength1 :: "jsval \<Rightarrow> error + bool" where
  "hasLength1 v = (case lengthOf v of Inl e \<Rightarrow> Inl e | Inr n \<Rightarrow> Inr (n = JNum 1))"

section \<open>The wrapper locator\<close>

text \<open>
  The test of \<^verbatim>\<open>findWebpackExpression\<close> on a call node (webpack.js, lines 63 to 68):
  \<^verbatim>\<open>
  node.callee.type === Syntax.FunctionExpression &&
  node.callee.params.length === 1 &&
  node.arguments.length === 1 &&
  node.arguments[0].type === Syntax.ArrayExpression
  \<close>
\<close>

definition looksLikeWrapper :: "(string \<times> jsval) list \<Rightarrow> error + bool" where
  "looksLikeWrapper kvs =
     andAlso (isType (own kvs ''callee'') ''FunctionExpression'')
    (andAlso (case getField (own kvs ''callee'') ''params'' of
                Inl e \<Rightarrow> Inl e | Inr ps \<Rightarrow> hasLength1 ps)
    (andAlso (hasLength1 (own kvs ''arguments''))
             (case index0 (own kvs ''arguments'') of
                Inl e \<Rightarrow> Inl e | Inr a \<Rightarrow> isType a ''ArrayExpression'')))"

lemma own_size: "size (own kvs k) \<le> size_list (size_prod (\<lambda>x. 0) size) kvs"
proof (induction kvs)
  case Nil
  show ?case by (simp add: own_def)
next
  case (Cons p kvs)
  then show ?case by (cases p) (auto simp: own_def split: option.splits)
qed

lemma own_JArr_size:
  "own kvs k = JArr xs \<Longrightarrow> size_list size xs < size_list (size_prod (\<lambda>x. 0) size) kvs"
  using own_size [of kvs k] by simp

text \<open>
  \<^verbatim>\<open>findWebpackExpression\<close> (webpack.js, lines 46 to 111). The \<^verbatim>\<open>switch\<close> returns from
  the call, unary and expression-statement cases; every other node, and an expression
  statement without expression, falls through to the search of \<^verbatim>\<open>node.body\<close>:
  \<^verbatim>\<open>
  if (node.body) {
    return node.body
      .reduce((result, child) => {
        const subtreeResult = findWebpackExpression(child);
        return subtreeResult || null;
      }, null);
  }
  return null;
  \<close>
  \<open>searchBody\<close> is that \<^verbatim>\<open>reduce\<close>: its second argument is the accumulator \<^verbatim>\<open>result\<close>,
  which the callback receives and does not read. \<^verbatim>\<open>node.body.reduce\<close> is a function only
  when \<^verbatim>\<open>node.body\<close> is an array; on any other value that is not false in a condition
  the call throws.
\<close>

function findWebpackExpression :: "jsval \<Rightarrow> error + jsval"
  and searchBody :: "jsval list \<Rightarrow> jsval \<Rightarrow> error + jsval" where
  "findWebpackExpression JUndefined = Inl TypeError"
| "findWebpackExpression JNull = Inl TypeError"
| "findWebpackExpression (JObj kvs) =
     (if own kvs ''type'' = JStr ''CallExpression'' then
        (case looksLikeWrapper kvs of
           Inl e \<Rightarrow> Inl e
         | Inr found \<Rightarrow>
             if found then Inr (JObj kvs)
             else findWebpackExpression (own kvs ''callee''))
      else if own kvs ''type'' = JStr ''UnaryExpression'' then
        findWebpackExpression (own kvs ''argument'')
      else if own kvs ''type'' = JStr ''ExpressionStatement''
              \<and> truthy (own kvs ''expression'') then
        findWebpackExpression (own kvs ''expression'')
      else if truthy (own kvs ''body'') then
        (case own kvs ''body'' of
           JArr stmts \<Rightarrow> searchBody stmts JNull
         | other \<Rightarrow> Inl TypeError)
      else Inr JNull)"
| "findWebpackExpression (JBool b) = Inr JNull"
| "findWebpackExpression (JNum n) = Inr JNull"
| "findWebpackExpression (JStr s) = Inr JNull"
| "findWebpackExpression (JArr xs) = Inr JNull"
| "findWebpackExpression (JNative f) = Inr JNull"
| "searchBody [] result = Inr result"
| "searchBody (child # rest) result =
     (case findWebpackExpression child of
        Inl e \<Rightarrow> Inl e
      | Inr subtreeResult \<Rightarrow>
          searchBody rest (if truthy subtreeResult then subtreeResult else JNull))"
  by pat_completeness auto
termination
  apply (relation "measure (\<lambda>x. case x of Inl v \<Rightarrow> size v | Inr (xs, r) \<Rightarrow> size_list size xs)")
  apply (auto simp: own_size own_JArr_size less_Suc_eq_le less_imp_le)
  done

section \<open>Strings, property keys and inherited properties\<close>

text \<open>
  A number in a template string or in a property key is written in decimal: these are
  the digits JavaScript writes for an integer up to \<open>2\<^sup>5\<^sup>3\<close>, the integers that a number
  holds exactly.
\<close>

fun showNat :: "nat \<Rightarrow> string" where
  "showNat n =
     (if n < 10 then [''0123456789'' ! n]
      else showNat (n div 10) @ [''0123456789'' ! (n mod 10)])"

declare showNat.simps [simp del]

text \<open>
  The conversion of a value to a string, which JavaScript applies to a property key
  (\<^verbatim>\<open>paramMap[param.name]\<close>, \<^verbatim>\<open>name in moduleExports\<close>), to a value in a template string and
  to the elements of \<^verbatim>\<open>join\<close>. An array is the \<^verbatim>\<open>join(',')\<close> of its elements, where
  \<^verbatim>\<open>undefined\<close> and \<^verbatim>\<open>null\<close> are empty; a plain object is \<^verbatim>\<open>[object Object]\<close>, and so is
  \<^verbatim>\<open>Object.prototype\<close>; \<^verbatim>\<open>Array.prototype\<close> is an array without elements; a built-in
  function is its source text as V8 prints it.
\<close>

definition builtinString :: "string \<Rightarrow> string" where
  "builtinString b =
     (if b = ''Object.prototype'' then ''[object Object]''
      else if b = ''Array.prototype'' then ''''
      else ''function '' @ b @ ''() { [native code] }'')"

function jsToString :: "jsval \<Rightarrow> string"
  and joinElements :: "jsval list \<Rightarrow> string" where
  "jsToString JUndefined = ''undefined''"
| "jsToString JNull = ''null''"
| "jsToString (JBool b) = (if b then ''true'' else ''false'')"
| "jsToString (JNum n) = (if n < 0 then ''-'' @ showNat (nat (- n)) else showNat (nat n))"
| "jsToString (JStr s) = s"
| "jsToString (JArr xs) = joinElements xs"
| "jsToString (JObj kvs) = ''[object Object]''"
| "jsToString (JNative b) = builtinString b"
| "joinElements [] = ''''"
| "joinElements (x # rest) =
     (if x = JUndefined \<or> x = JNull then '''' else jsToString x)
     @ (if rest = [] then '''' else '','' @ joinElements rest)"
  by pat_completeness auto
termination
  by (relation "measure (\<lambda>x. case x of Inl v \<Rightarrow> size v | Inr xs \<Rightarrow> size_list size xs)") auto

text \<open>
  The objects the program creates (\<^verbatim>\<open>{}\<close>, \<^verbatim>\<open>{ ...srcParamMap }\<close>) inherit from
  \<^verbatim>\<open>Object.prototype\<close>, and the \<^verbatim>\<open>in\<close> operator and a property read see the inherited
  properties too, while \<^verbatim>\<open>delete\<close> and \<^verbatim>\<open>Object.keys\<close> only see own properties. The names
  below are the properties of \<^verbatim>\<open>Object.prototype\<close> and the methods of \<^verbatim>\<open>Array.prototype\<close> of
  ECMAScript 2023 (the runtime decides which array methods there are; an earlier edition
  has fewer). The property \<^verbatim>\<open>constructor\<close> is the function \<^verbatim>\<open>Object\<close>, or \<^verbatim>\<open>Array\<close> on an
  array; \<^verbatim>\<open>__proto__\<close> is the prototype object itself; every other inherited property is
  a function of the same name.
\<close>

definition objectPrototypeKeys :: "string list" where
  "objectPrototypeKeys =
     [''constructor'', ''__defineGetter__'', ''__defineSetter__'', ''hasOwnProperty'',
      ''__lookupGetter__'', ''__lookupSetter__'', ''isPrototypeOf'',
      ''propertyIsEnumerable'', ''toString'', ''valueOf'', ''__proto__'',
      ''toLocaleString'']"

definition arrayPrototypeKeys :: "string list" where
  "arrayPrototypeKeys =
     [''at'', ''concat'', ''copyWithin'', ''entries'', ''every'', ''fill'', ''filter'',
      ''find'', ''findIndex'', ''findLast'', ''findLastIndex'', ''flat'', ''flatMap'',
      ''forEach'', ''includes'', ''indexOf'', ''join'', ''keys'', ''lastIndexOf'', ''map'',
      ''pop'', ''push'', ''reduce'', ''reduceRight'', ''reverse'', ''shift'', ''slice'',
      ''some'', ''sort'', ''splice'', ''toReversed'', ''toSorted'', ''toSpliced'',
      ''unshift'', ''values'', ''with'']"

definition objectBuiltin :: "string \<Rightarrow> string" where
  "objectBuiltin k =
     (if k = ''constructor'' then ''Object''
      else if k = ''__proto__'' then ''Object.prototype'' else k)"

definition arrayBuiltin :: "string \<Rightarrow> string" where
  "arrayBuiltin k =
     (if k = ''constructor'' then ''Array''
      else if k = ''__proto__'' then ''Array.prototype'' else k)"

text \<open>
  The Parameter Map: the own properties of \<^verbatim>\<open>paramMap\<close>, from a name to a role.
  \<open>inMap\<close> is \<^verbatim>\<open>key in paramMap\<close>, \<open>mapGet\<close> is \<^verbatim>\<open>paramMap[key]\<close>.
\<close>

type_synonym paramMap = "string \<rightharpoonup> string"

definition inMap :: "paramMap \<Rightarrow> string \<Rightarrow> bool" where
  "inMap pm k = (k \<in> dom pm \<or> k \<in> set objectPrototypeKeys)"

definition mapGet :: "paramMap \<Rightarrow> string \<Rightarrow> jsval" where
  "mapGet pm k =
     (case pm k of
        Some r \<Rightarrow> JStr r
      | None \<Rightarrow>
          if k \<in> set objectPrototypeKeys then JNative (objectBuiltin k) else JUndefined)"

text \<open>
  \<^verbatim>\<open>moduleNames[v]\<close> on the array of module names: the key is the string of \<open>v\<close>; an array
  answers the decimal keys below its length, \<^verbatim>\<open>length\<close> and what it inherits.
\<close>

definition arrayGet :: "string list \<Rightarrow> jsval \<Rightarrow> jsval" where
  "arrayGet names v =
     (let key = jsToString v in
      case filter (\<lambda>i. showNat i = key) [0..<length names] of
        i # rest \<Rightarrow> JStr (names ! i)
      | [] \<Rightarrow>
          if key = ''length'' then JNum (int (length names))
          else if key \<in> set arrayPrototypeKeys \<or> key \<in> set objectPrototypeKeys
          then JNative (arrayBuiltin key)
          else JUndefined)"

text \<open>
  \<^verbatim>\<open>node[k] = v\<close> on a node: an existing property keeps its place in the enumeration, a new
  one (with a name that is not an array index) is enumerated last.
\<close>

fun setField :: "(string \<times> jsval) list \<Rightarrow> string \<Rightarrow> jsval \<Rightarrow> (string \<times> jsval) list" where
  "setField [] k v = [(k, v)]"
| "setField ((k', v') # rest) k v =
     (if k' = k then (k, v) # rest else (k', v') # setField rest k v)"

section \<open>The scope analyzer\<close>

text \<open>
  \<^verbatim>\<open>getScopeVariables\<close> (utils, lines 12 to 31). The second argument is the array
  \<^verbatim>\<open>scopeVariables\<close>, to which the function pushes; the result is the array after the
  call. What is pushed is \<^verbatim>\<open>declaration.id\<close>, the declared pattern node, not its name.
  \<^verbatim>\<open>
  if (Array.isArray(node)) {
    node.forEach(nodeElement => getScopeVariables(nodeElement, scopeVariables));
  } else if (node && typeof node === 'object') {
    if (node.type === Syntax.VariableDeclaration) {
      if (node.kind === 'var') {
        node.declarations.forEach((declaration) => { scopeVariables.push(declaration.id); });
      }
    } else {
      Object.keys(node).forEach((key) => { getScopeVariables(node[key], scopeVariables); });
    }
  }
  return scopeVariables;
  \<close>
  A loop over \<^verbatim>\<open>Object.keys(node)\<close> that reads \<^verbatim>\<open>node[key]\<close> visits the properties in
  the order of the list \<open>kvs\<close>.
\<close>

fun pushIds :: "jsval list \<Rightarrow> jsval list \<Rightarrow> error + jsval list" where
  "pushIds [] scopeVariables = Inr scopeVariables"
| "pushIds (declaration # rest) scopeVariables =
     (case getField declaration ''id'' of
        Inl e \<Rightarrow> Inl e
      | Inr i \<Rightarrow> pushIds rest (scopeVariables @ [i]))"

function getScopeVariables :: "jsval \<Rightarrow> jsval list \<Rightarrow> error + jsval list"
  and scopeOfElements :: "jsval list \<Rightarrow> jsval list \<Rightarrow> error + jsval list"
  and scopeOfFields :: "(string \<times> jsval) list \<Rightarrow> jsval list \<Rightarrow> error + jsval list" where
  "getScopeVariables (JArr xs) scopeVariables = scopeOfElements xs scopeVariables"
| "getScopeVariables (JObj kvs) scopeVariables =
     (if own kvs ''type'' = JStr ''VariableDeclaration'' then
        (if own kvs ''kind'' = JStr ''var'' then
           (case own kvs ''declarations'' of
              JArr declarations \<Rightarrow> pushIds declarations scopeVariables
            | other \<Rightarrow> Inl TypeError)
         else Inr scopeVariables)
      else scopeOfFields kvs scopeVariables)"
| "getScopeVariables JUndefined scopeVariables = Inr scopeVariables"
| "getScopeVariables JNull scopeVariables = Inr scopeVariables"
| "getScopeVariables (JBool b) scopeVariables = Inr scopeVariables"
| "getScopeVariables (JNum n) scopeVariables = Inr scopeVariables"
| "getScopeVariables (JStr s) scopeVariables = Inr scopeVariables"
| "getScopeVariables (JNative f) scopeVariables = Inr scopeVariables"
| "scopeOfElements [] scopeVariables = Inr scopeVariables"
| "scopeOfElements (x # rest) scopeVariables =
     (case getScopeVariables x scopeVariables of
        Inl e \<Rightarrow> Inl e
      | Inr found \<Rightarrow> scopeOfElements rest found)"
| "scopeOfFields [] scopeVariables = Inr scopeVariables"
| "scopeOfFields ((k, v) # rest) scopeVariables =
     (case getScopeVariables v scopeVariables of
        Inl e \<Rightarrow> Inl e
      | Inr found \<Rightarrow> scopeOfFields rest found)"
  by pat_completeness auto
termination
  by (relation "measure (\<lambda>x. case x of
         Inl (v, a) \<Rightarrow> size v
       | Inr (Inl (xs, a)) \<Rightarrow> size_list size xs
       | Inr (Inr (kvs, a)) \<Rightarrow> size_list (size_prod (\<lambda>x. 0) size) kvs)") auto

section \<open>The renamer\<close>

text \<open>
  \<^verbatim>\<open>scopeVariables.forEach((param) => { delete paramMap[param.name]; })\<close> and the same loop
  over \<^verbatim>\<open>node.params\<close>.
\<close>

fun deleteNames :: "jsval list \<Rightarrow> paramMap \<Rightarrow> error + paramMap" where
  "deleteNames [] pm = Inr pm"
| "deleteNames (param # rest) pm =
     (case getField param ''name'' of
        Inl e \<Rightarrow> Inl e
      | Inr n \<Rightarrow> deleteNames rest (pm(jsToString n := None)))"

text \<open>
  The call case of \<^verbatim>\<open>remapParams\<close> (utils, lines 62 to 78), which replaces
  \<^verbatim>\<open>node.arguments\<close> on the copy of the node before the fields are visited:
  \<^verbatim>\<open>
  if (node.callee.name in paramMap &&
      paramMap[node.callee.name] === requireName &&
      node.arguments.length === 1) {
    const moduleName = moduleNames[node.arguments[0].value];
    if (moduleName) {
      node.arguments = [{ type: Syntax.Literal, value: `./${moduleName}`,
                          raw: `'./${moduleName}'` }];
    }
  }
  \<close>
\<close>

definition requireLiteral :: "string \<Rightarrow> jsval" where
  "requireLiteral moduleName =
     JObj [(''type'', JStr ''Literal''), (''value'', JStr (''./'' @ moduleName)),
           (''raw'', JStr ([CHR 0x27] @ ''./'' @ moduleName @ [CHR 0x27]))]"

definition rewriteRequire ::
  "(string \<times> jsval) list \<Rightarrow> paramMap \<Rightarrow> string list \<Rightarrow> string
     \<Rightarrow> error + (string \<times> jsval) list" where
  "rewriteRequire node pm moduleNames requireName =
     (case getField (own node ''callee'') ''name'' of
        Inl e \<Rightarrow> Inl e
      | Inr calleeName \<Rightarrow>
          if inMap pm (jsToString calleeName)
             \<and> mapGet pm (jsToString calleeName) = JStr requireName then
            (case hasLength1 (own node ''arguments'') of
               Inl e \<Rightarrow> Inl e
             | Inr one \<Rightarrow>
                 if one then
                   (case index0 (own node ''arguments'') of
                      Inl e \<Rightarrow> Inl e
                    | Inr arg \<Rightarrow>
                        (case getField arg ''value'' of
                           Inl e \<Rightarrow> Inl e
                         | Inr v \<Rightarrow>
                             if truthy (arrayGet moduleNames v) then
                               Inr (setField node ''arguments''
                                      (JArr [requireLiteral (jsToString (arrayGet moduleNames v))]))
                             else Inr node))
                 else Inr node)
          else Inr node)"

text \<open>
  The recursion of \<^verbatim>\<open>remapParams\<close> visits the fields of the copy, and in the call case
  the copy holds the new argument list, which is not a part of the input. The measure below
  decreases all the same: it counts the nodes of a tree and gives a call node the weight
  of the literal that may replace its arguments.
\<close>

function weight :: "jsval \<Rightarrow> nat"
  and weightList :: "jsval list \<Rightarrow> nat"
  and weightFields :: "(string \<times> jsval) list \<Rightarrow> nat" where
  "weight (JArr xs) = Suc (weightList xs)"
| "weight (JObj kvs) =
     (if own kvs ''type'' = JStr ''CallExpression'' then 8 else 1) + weightFields kvs"
| "weight JUndefined = 0"
| "weight JNull = 0"
| "weight (JBool b) = 0"
| "weight (JNum n) = 0"
| "weight (JStr s) = 0"
| "weight (JNative f) = 0"
| "weightList [] = 0"
| "weightList (x # rest) = Suc (weight x + weightList rest)"
| "weightFields [] = 0"
| "weightFields ((k, v) # rest) = Suc (weight v + weightFields rest)"
  by pat_completeness auto
termination
  by (relation "measure (\<lambda>x. case x of
         Inl v \<Rightarrow> size v
       | Inr (Inl xs) \<Rightarrow> size_list size xs
       | Inr (Inr kvs) \<Rightarrow> size_list (size_prod (\<lambda>x. 0) size) kvs)") auto

lemma weightFields_setField:
  "weightFields (setField kvs k v) \<le> Suc (weightFields kvs + weight v)"
  by (induction kvs k v rule: setField.induct) auto

lemma weight_requireLiteral: "weight (JArr [requireLiteral s]) = 6"
  by (simp add: requireLiteral_def own_def)

lemma rewriteRequire_weight:
  "rewriteRequire node pm moduleNames requireName = Inr node'
     \<Longrightarrow> weightFields node' \<le> weightFields node + 7"
proof -
  have "weightFields (setField node k (JArr [requireLiteral s])) \<le> weightFields node + 7" for k s
    using weightFields_setField [of node k "JArr [requireLiteral s]"]
    by (simp only: weight_requireLiteral)
  then show "rewriteRequire node pm moduleNames requireName = Inr node'
     \<Longrightarrow> weightFields node' \<le> weightFields node + 7"
    by (auto simp: rewriteRequire_def split: sum.splits if_splits)
qed

lemma own_weight: "weight (own kvs k) \<le> weightFields kvs"
proof (induction kvs)
  case Nil
  show ?case by (simp add: own_def)
next
  case (Cons p kvs)
  then show ?case by (cases p) (auto simp: own_def split: option.splits)
qed

text \<open>
  \<^verbatim>\<open>remapParams\<close> (utils, lines 43 to 124). A value that is not an object is returned as
  it is. For an array the names of \<^verbatim>\<open>getScopeVariables(srcNode)\<close> are deleted from the copy
  of the map and the elements are mapped, without passing \<^verbatim>\<open>requireName\<close> on (so it is
  \<^verbatim>\<open>'require'\<close> again below an array). For a node, the \<^verbatim>\<open>switch\<close> treats calls,
  identifiers and function expressions; then
  \<^verbatim>\<open>
  if (!(node.type === Syntax.Identifier || node.type === Syntax.VariableDeclaration)) {
    Object.keys(node).forEach((key) => {
      if (key !== 'params') {
        node[key] = remapParams(node[key], paramMap, moduleNames, requireName);
      }
    });
  }
  return node;
  \<close>
  \<open>remapFields\<close> is this loop over the properties of the copy. The \<^verbatim>\<open>default\<close> case of the
  \<^verbatim>\<open>switch\<close> tests for a function expression again, which the earlier case has taken, so
  it does nothing.
\<close>

function remapParams :: "jsval \<Rightarrow> paramMap \<Rightarrow> string list \<Rightarrow> string \<Rightarrow> error + jsval"
  and remapElements :: "jsval list \<Rightarrow> paramMap \<Rightarrow> string list \<Rightarrow> error + jsval list"
  and remapFields ::
    "(string \<times> jsval) list \<Rightarrow> paramMap \<Rightarrow> string list \<Rightarrow> string
       \<Rightarrow> error + (string \<times> jsval) list" where
  "remapParams (JArr xs) pm moduleNames requireName =
     (case getScopeVariables (JArr xs) [] of
        Inl e \<Rightarrow> Inl e
      | Inr scopeVariables \<Rightarrow>
          (case deleteNames scopeVariables pm of
             Inl e \<Rightarrow> Inl e
           | Inr pm' \<Rightarrow>
               (case remapElements xs pm' moduleNames of
                  Inl e \<Rightarrow> Inl e
                | Inr ys \<Rightarrow> Inr (JArr ys))))"
| "remapParams (JObj kvs) pm moduleNames requireName =
     (if own kvs ''type'' = JStr ''CallExpression'' then
        (case rewriteRequire kvs pm moduleNames requireName of
           Inl e \<Rightarrow> Inl e
         | Inr node \<Rightarrow>
             (case remapFields node pm moduleNames requireName of
                Inl e \<Rightarrow> Inl e
              | Inr node' \<Rightarrow> Inr (JObj node')))
      else if own kvs ''type'' = JStr ''Identifier'' then
        (if inMap pm (jsToString (own kvs ''name''))
         then Inr (JObj (setField kvs ''name'' (mapGet pm (jsToString (own kvs ''name'')))))
         else Inr (JObj kvs))
      else if own kvs ''type'' = JStr ''FunctionExpression'' then
        (case own kvs ''params'' of
           JArr params \<Rightarrow>
             (case deleteNames params pm of
                Inl e \<Rightarrow> Inl e
              | Inr pm' \<Rightarrow>
                  (case remapFields kvs pm' moduleNames requireName of
                     Inl e \<Rightarrow> Inl e
                   | Inr node' \<Rightarrow> Inr (JObj node')))
         | other \<Rightarrow> Inl TypeError)
      else if own kvs ''type'' = JStr ''VariableDeclaration'' then Inr (JObj kvs)
      else
        (case remapFields kvs pm moduleNames requireName of
           Inl e \<Rightarrow> Inl e
         | Inr node' \<Rightarrow> Inr (JObj node')))"
| "remapParams JUndefined pm moduleNames requireName = Inr JUndefined"
| "remapParams JNull pm moduleNames requireName = Inr JNull"
| "remapParams (JBool b) pm moduleNames requireName = Inr (JBool b)"
| "remapParams (JNum n) pm moduleNames requireName = Inr (JNum n)"
| "remapParams (JStr s) pm moduleNames requireName = Inr (JStr s)"
| "remapParams (JNative f) pm moduleNames requireName = Inr (JNative f)"
| "remapElements [] pm moduleNames = Inr []"
| "remapElements (x # rest) pm moduleNames =
     (case remapParams x pm moduleNames ''require'' of
        Inl e \<Rightarrow> Inl e
      | Inr y \<Rightarrow>
          (case remapElements rest pm moduleNames of
             Inl e \<Rightarrow> Inl e
           | Inr ys \<Rightarrow> Inr (y # ys)))"
| "remapFields [] pm moduleNames requireName = Inr []"
| "remapFields ((k, v) # rest) pm moduleNames requireName =
     (case (if k = ''params'' then Inr v else remapParams v pm moduleNames requireName) of
        Inl e \<Rightarrow> Inl e
      | Inr v' \<Rightarrow>
          (case remapFields rest pm moduleNames requireName of
             Inl e \<Rightarrow> Inl e
           | Inr rest' \<Rightarrow> Inr ((k, v') # rest')))"
  by pat_completeness auto
termination
  apply (relation "measure (\<lambda>x. case x of
         Inl (v, a) \<Rightarrow> weight v
       | Inr (Inl (xs, a)) \<Rightarrow> weightList xs
       | Inr (Inr (kvs, a)) \<Rightarrow> weightFields kvs)")
  apply (auto dest: rewriteRequire_weight)
  done

section \<open>The export-name inferrer\<close>

text \<open>
  \<^verbatim>\<open>flattenMemberExpression\<close> (utils, lines 132 to 146). The two paths of a member
  expression are joined by \<^verbatim>\<open>[a, b].join('.')\<close>.
\<close>

function flattenMemberExpression :: "jsval \<Rightarrow> error + jsval" where
  "flattenMemberExpression JUndefined = Inl TypeError"
| "flattenMemberExpression JNull = Inl TypeError"
| "flattenMemberExpression (JObj kvs) =
     (if own kvs ''type'' = JStr ''FunctionExpression'' then
        (if truthy (own kvs ''id'') then getField (own kvs ''id'') ''name''
         else Inr (JStr ''''))
      else if own kvs ''type'' = JStr ''Literal'' then Inr (own kvs ''value'')
      else if own kvs ''type'' = JStr ''Identifier'' then Inr (own kvs ''name'')
      else if own kvs ''type'' = JStr ''MemberExpression'' then
        (case (if truthy (own kvs ''computed'') then getField (own kvs ''object'') ''name''
               else flattenMemberExpression (own kvs ''object'')) of
           Inl e \<Rightarrow> Inl e
         | Inr objectPath \<Rightarrow>
             (case flattenMemberExpression (own kvs ''property'') of
                Inl e \<Rightarrow> Inl e
              | Inr propertyPath \<Rightarrow>
                  Inr (JStr (joinElements [objectPath] @ ''.'' @ joinElements [propertyPath]))))
      else Inr (JStr ''''))"
| "flattenMemberExpression (JBool b) = Inr (JStr '''')"
| "flattenMemberExpression (JNum n) = Inr (JStr '''')"
| "flattenMemberExpression (JStr s) = Inr (JStr '''')"
| "flattenMemberExpression (JArr xs) = Inr (JStr '''')"
| "flattenMemberExpression (JNative f) = Inr (JStr '''')"
  by pat_completeness auto
termination
  by (relation "measure size") (auto simp: own_size less_Suc_eq_le)

text \<open>
  The test \<^verbatim>\<open>/^(.+\.)?exports$/\<close>: the string is \<^verbatim>\<open>exports\<close>, or it ends with
  \<^verbatim>\<open>.exports\<close> after at least one character, none of them a line terminator (which
  \<^verbatim>\<open>.\<close> does not match).
\<close>

definition isExportsPath :: "string \<Rightarrow> bool" where
  "isExportsPath s =
     (s = ''exports''
      \<or> (8 < length s \<and> drop (length s - 8) s = ''.exports''
          \<and> list_all (\<lambda>c. c \<noteq> CHR 0x0A \<and> c \<noteq> CHR 0x0D) (take (length s - 8) s)))"

text \<open>
  \<^verbatim>\<open>Object.keys\<close> enumerates the keys that are array indices (the decimal numbers below
  \<open>2\<^sup>3\<^sup>2 - 1\<close>) first, in ascending order, and then the other keys in the order of their
  creation. \<open>setEntry\<close> is the assignment \<^verbatim>\<open>object[k] = v\<close> on the list of entries in
  enumeration order.
\<close>

definition digitsValue :: "string \<Rightarrow> nat" where
  "digitsValue k =
     foldl (\<lambda>n c. 10 * n + length (takeWhile (\<lambda>d. d \<noteq> c) ''0123456789'')) 0 k"

definition arrayIndexKey :: "string \<Rightarrow> nat option" where
  "arrayIndexKey k =
     (if showNat (digitsValue k) = k \<and> digitsValue k < 4294967295
      then Some (digitsValue k) else None)"

definition enumeratedBefore :: "string \<Rightarrow> string \<Rightarrow> bool" where
  "enumeratedBefore k x =
     (case arrayIndexKey k of
        None \<Rightarrow> False
      | Some i \<Rightarrow> (case arrayIndexKey x of None \<Rightarrow> True | Some j \<Rightarrow> i < j))"

fun setEntry :: "(string \<times> 'v) list \<Rightarrow> string \<Rightarrow> 'v \<Rightarrow> (string \<times> 'v) list" where
  "setEntry [] k v = [(k, v)]"
| "setEntry ((k', v') # rest) k v =
     (if k' = k then (k, v) # rest
      else if enumeratedBefore k k' \<and> k \<notin> fst ` set rest then (k, v) # (k', v') # rest
      else (k', v') # setEntry rest k v)"

text \<open>
  The search for a free name (utils, lines 165 to 170), with the state of the loop as
  arguments; \<open>hasKey\<close> is \<^verbatim>\<open>moduleName in moduleExports\<close>:
  \<^verbatim>\<open>
  let moduleName = inferredModuleName;
  let i = 0;
  while (moduleName in moduleExports) {
    i += 1;
    moduleName = `${inferredModuleName}__${i}`;
  }
  \<close>
  The loop ends: a candidate that is a key is no longer than the longest key, and the
  candidates grow with \<open>i\<close>.
\<close>

definition hasKey :: "(string \<times> 'v) list \<Rightarrow> string \<Rightarrow> bool" where
  "hasKey entries k = (k \<in> fst ` set entries \<or> k \<in> set objectPrototypeKeys)"

definition longestKey :: "(string \<times> 'v) list \<Rightarrow> nat" where
  "longestKey entries = foldr max (map length (map fst entries @ objectPrototypeKeys)) 0"

lemma showNat_bound: "n < 10 ^ length (showNat n)"
proof (induction n rule: showNat.induct)
  case (1 n)
  show ?case
  proof (cases "n < 10")
    case True
    then show ?thesis by (simp add: showNat.simps [of n])
  next
    case False
    with 1 have "n div 10 < 10 ^ length (showNat (n div 10))" by simp
    then have "n < 10 * 10 ^ length (showNat (n div 10))" by simp
    with False show ?thesis by (simp add: showNat.simps [of n])
  qed
qed

lemma foldr_max_bound: "x \<in> set xs \<Longrightarrow> x \<le> foldr max xs (0::nat)"
  by (induction xs) auto

lemma hasKey_length: "hasKey entries k \<Longrightarrow> length k \<le> longestKey entries"
  unfolding hasKey_def longestKey_def by (rule foldr_max_bound) auto

function freeName :: "string \<Rightarrow> (string \<times> 'v) list \<Rightarrow> nat \<Rightarrow> string \<Rightarrow> string" where
  "freeName inferredModuleName moduleExports i moduleName =
     (if hasKey moduleExports moduleName
      then freeName inferredModuleName moduleExports (Suc i)
             (inferredModuleName @ ''__'' @ showNat (Suc i))
      else moduleName)"
  by pat_completeness auto
termination
proof (relation "measure (\<lambda>(inferred, entries, i, name).
         if hasKey entries name then Suc (10 ^ longestKey entries - i) else 0)", goal_cases)
  case 1
  show ?case by simp
next
  case (2 inferred entries i name)
  show ?case
  proof (cases "hasKey entries (inferred @ ''__'' @ showNat (Suc i))")
    case False
    with 2 show ?thesis by simp
  next
    case True
    then have "length (showNat (Suc i)) \<le> longestKey entries"
      using hasKey_length [OF True] by simp
    then have "(10::nat) ^ length (showNat (Suc i)) \<le> 10 ^ longestKey entries"
      by (simp add: power_increasing)
    with showNat_bound [of "Suc i"] have "Suc i < 10 ^ longestKey entries"
      by (rule less_le_trans)
    with 2 True show ?thesis by simp
  qed
qed

declare freeName.simps [simp del]

text \<open>
  \<^verbatim>\<open>findModuleExports\<close> (utils, lines 156 to 182); \<open>recordExport\<close> is its assignment case.
  \<^verbatim>\<open>match\<close> is a method of strings only, so the call throws when the flattened left side
  is not a string.
\<close>

definition recordExport ::
  "(string \<times> jsval) list \<Rightarrow> (string \<times> bool) list \<Rightarrow> error + (string \<times> bool) list" where
  "recordExport node moduleExports =
     (case flattenMemberExpression (own node ''left'') of
        Inl e \<Rightarrow> Inl e
      | Inr (JStr path) \<Rightarrow>
          if isExportsPath path then
            (case flattenMemberExpression (own node ''right'') of
               Inl e \<Rightarrow> Inl e
             | Inr inferredModuleName \<Rightarrow>
                 Inr (setEntry moduleExports
                        (freeName (jsToString inferredModuleName) moduleExports 0
                           (jsToString inferredModuleName))
                        True))
          else Inr moduleExports
      | Inr other \<Rightarrow> Inl TypeError)"

function findModuleExports :: "jsval \<Rightarrow> (string \<times> bool) list \<Rightarrow> error + (string \<times> bool) list"
  and exportsOfElements :: "jsval list \<Rightarrow> (string \<times> bool) list \<Rightarrow> error + (string \<times> bool) list"
  and exportsOfFields ::
    "(string \<times> jsval) list \<Rightarrow> (string \<times> bool) list \<Rightarrow> error + (string \<times> bool) list" where
  "findModuleExports (JArr xs) moduleExports = exportsOfElements xs moduleExports"
| "findModuleExports (JObj kvs) moduleExports =
     (case (if own kvs ''type'' = JStr ''AssignmentExpression''
            then recordExport kvs moduleExports else Inr moduleExports) of
        Inl e \<Rightarrow> Inl e
      | Inr found \<Rightarrow> exportsOfFields kvs found)"
| "findModuleExports JUndefined moduleExports = Inr moduleExports"
| "findModuleExports JNull moduleExports = Inr moduleExports"
| "findModuleExports (JBool b) moduleExports = Inr moduleExports"
| "findModuleExports (JNum n) moduleExports = Inr moduleExports"
| "findModuleExports (JStr s) moduleExports = Inr moduleExports"
| "findModuleExports (JNative f) moduleExports = Inr moduleExports"
| "exportsOfElements [] moduleExports = Inr moduleExports"
| "exportsOfElements (x # rest) moduleExports =
     (case findModuleExports x moduleExports of
        Inl e \<Rightarrow> Inl e
      | Inr found \<Rightarrow> exportsOfElements rest found)"
| "exportsOfFields [] moduleExports = Inr moduleExports"
| "exportsOfFields ((k, v) # rest) moduleExports =
     (case findModuleExports v moduleExports of
        Inl e \<Rightarrow> Inl e
      | Inr found \<Rightarrow> exportsOfFields rest found)"
  by pat_completeness auto
termination
  by (relation "measure (\<lambda>x. case x of
         Inl (v, a) \<Rightarrow> size v
       | Inr (Inl (xs, a)) \<Rightarrow> size_list size xs
       | Inr (Inr (kvs, a)) \<Rightarrow> size_list (size_prod (\<lambda>x. 0) size) kvs)") auto

text \<open>
  \<^verbatim>\<open>getModuleName\<close> (utils, lines 191 to 200); \<open>fallbackName\<close> is its last line,
  \<^verbatim>\<open>return moduleName || `module-${id}`\<close>.
\<close>

definition fallbackName :: "string \<Rightarrow> nat \<Rightarrow> string" where
  "fallbackName moduleName moduleId =
     (if moduleName \<noteq> '''' then moduleName else ''module-'' @ showNat moduleId)"

fun getModuleName :: "jsval \<Rightarrow> nat \<Rightarrow> error + string" where
  "getModuleName JUndefined moduleId = Inl TypeError"
| "getModuleName JNull moduleId = Inl TypeError"
| "getModuleName (JObj kvs) moduleId =
     (if own kvs ''type'' = JStr ''FunctionExpression'' \<and> truthy (own kvs ''body'') then
        (case findModuleExports (own kvs ''body'') [] of
           Inl e \<Rightarrow> Inl e
         | Inr moduleExports \<Rightarrow>
             Inr (fallbackName (case map fst moduleExports of [] \<Rightarrow> '''' | k # rest \<Rightarrow> k) moduleId))
      else Inr (fallbackName '''' moduleId))"
| "getModuleName v moduleId = Inr (fallbackName '''' moduleId)"

section \<open>The module extractor\<close>

text \<open>
  \<^verbatim>\<open>processWebpackModule\<close> (webpack.js, lines 22 to 38). \<open>seedParams\<close> is the \<^verbatim>\<open>reduce\<close>
  over \<^verbatim>\<open>module.params\<close> that binds the first three parameter names to the roles; an
  assignment to the key \<^verbatim>\<open>__proto__\<close> of a plain object creates no property.
\<close>

definition WEBPACK_MODULE_PARAMS :: "string list" where
  "WEBPACK_MODULE_PARAMS = [''module'', ''exports'', ''require'']"

definition setParam :: "paramMap \<Rightarrow> string \<Rightarrow> string \<Rightarrow> paramMap" where
  "setParam params k v = (if k = ''__proto__'' then params else params(k \<mapsto> v))"

fun seedParams :: "jsval list \<Rightarrow> nat \<Rightarrow> paramMap \<Rightarrow> error + paramMap" where
  "seedParams [] i params = Inr params"
| "seedParams (param # rest) i params =
     (if i < length WEBPACK_MODULE_PARAMS then
        (case getField param ''name'' of
           Inl e \<Rightarrow> Inl e
         | Inr n \<Rightarrow>
             seedParams rest (Suc i) (setParam params (jsToString n) (WEBPACK_MODULE_PARAMS ! i)))
      else seedParams rest (Suc i) params)"

fun processWebpackModule :: "jsval \<Rightarrow> string list \<Rightarrow> error + jsval" where
  "processWebpackModule JUndefined moduleNames = Inl TypeError"
| "processWebpackModule JNull moduleNames = Inl TypeError"
| "processWebpackModule (JObj kvs) moduleNames =
     (if own kvs ''type'' = JStr ''FunctionExpression'' \<and> truthy (own kvs ''body'') then
        (case own kvs ''params'' of
           JArr params \<Rightarrow>
             (case seedParams params 0 Map.empty of
                Inl e \<Rightarrow> Inl e
              | Inr paramMap \<Rightarrow>
                  (case remapParams (own kvs ''body'') paramMap moduleNames ''require'' of
                     Inl e \<Rightarrow> Inl e
                   | Inr body \<Rightarrow> Inr (JObj (setField kvs ''body'' body))))
         | other \<Rightarrow> Inl TypeError)
      else Inr (JObj kvs))"
| "processWebpackModule v moduleNames = Inr v"

text \<open>
  \<^verbatim>\<open>extractWebpackExpressionModules\<close> (webpack.js, lines 119 to 142). The renderer
  \<^verbatim>\<open>escodegen.generate\<close> is a library outside the program: it is the parameter
  \<open>generate\<close>. \<open>moduleNamesFrom\<close> is the first \<^verbatim>\<open>map\<close>, over the modules and their
  indices; \<open>moduleContents\<close> is the second, which receives all the names.
\<close>

fun moduleNamesFrom :: "jsval list \<Rightarrow> nat \<Rightarrow> error + string list" where
  "moduleNamesFrom [] i = Inr []"
| "moduleNamesFrom (module # rest) i =
     (case getModuleName module i of
        Inl e \<Rightarrow> Inl e
      | Inr n \<Rightarrow>
          (case moduleNamesFrom rest (Suc i) of
             Inl e \<Rightarrow> Inl e
           | Inr ns \<Rightarrow> Inr (n # ns)))"

fun generateAll :: "(jsval \<Rightarrow> error + string) \<Rightarrow> jsval list \<Rightarrow> error + string list" where
  "generateAll generate [] = Inr []"
| "generateAll generate (x # rest) =
     (case generate x of
        Inl e \<Rightarrow> Inl e
      | Inr s \<Rightarrow>
          (case generateAll generate rest of
             Inl e \<Rightarrow> Inl e
           | Inr ss \<Rightarrow> Inr (s # ss)))"

fun joinLines :: "string list \<Rightarrow> string" where
  "joinLines [] = ''''"
| "joinLines [s] = s"
| "joinLines (s # rest) = s @ [CHR 0x0A] @ joinLines rest"

definition moduleContent ::
  "(jsval \<Rightarrow> error + string) \<Rightarrow> string list \<Rightarrow> jsval \<Rightarrow> error + string" where
  "moduleContent generate moduleNames module =
     (case processWebpackModule module moduleNames of
        Inl e \<Rightarrow> Inl e
      | Inr processedModule \<Rightarrow>
          (case getField processedModule ''type'' of
             Inl e \<Rightarrow> Inl e
           | Inr ty \<Rightarrow>
               (case getField processedModule ''body'' of
                  Inl e \<Rightarrow> Inl e
                | Inr body \<Rightarrow>
                    if ty = JStr ''FunctionExpression'' \<and> truthy body then
                      (case getField body ''type'' of
                         Inl e \<Rightarrow> Inl e
                       | Inr bodyType \<Rightarrow>
                           if bodyType = JStr ''BlockStatement'' then
                             (case getField body ''body'' of
                                Inl e \<Rightarrow> Inl e
                              | Inr (JArr stmts) \<Rightarrow>
                                  (case generateAll generate stmts of
                                     Inl e \<Rightarrow> Inl e
                                   | Inr texts \<Rightarrow> Inr (joinLines texts))
                              | Inr other \<Rightarrow> Inl TypeError)
                           else generate body)
                    else generate processedModule)))"

fun moduleContents ::
  "(jsval \<Rightarrow> error + string) \<Rightarrow> string list \<Rightarrow> jsval list \<Rightarrow> error + string list" where
  "moduleContents generate moduleNames [] = Inr []"
| "moduleContents generate moduleNames (module # rest) =
     (case moduleContent generate moduleNames module of
        Inl e \<Rightarrow> Inl e
      | Inr c \<Rightarrow>
          (case moduleContents generate moduleNames rest of
             Inl e \<Rightarrow> Inl e
           | Inr cs \<Rightarrow> Inr (c # cs)))"

fun firstElement :: "jsval \<Rightarrow> error + jsval" where
  "firstElement (JArr xs) = index0 (JArr xs)"
| "firstElement (JStr s) = index0 (JStr s)"
| "firstElement v = Inl TypeError"

definition extractWebpackExpressionModules ::
  "(jsval \<Rightarrow> error + string) \<Rightarrow> jsval \<Rightarrow> error + (string \<times> string) list" where
  "extractWebpackExpressionModules generate expression =
     (case getField expression ''arguments'' of
        Inl e \<Rightarrow> Inl e
      | Inr arguments \<Rightarrow>
          (case firstElement arguments of
             Inl e \<Rightarrow> Inl e
           | Inr webpackModules \<Rightarrow>
               (case getField webpackModules ''elements'' of
                  Inl e \<Rightarrow> Inl e
                | Inr (JArr elements) \<Rightarrow>
                    (case moduleNamesFrom elements 0 of
                       Inl e \<Rightarrow> Inl e
                     | Inr moduleNames \<Rightarrow>
                         (case moduleContents generate moduleNames elements of
                            Inl e \<Rightarrow> Inl e
                          | Inr contents \<Rightarrow>
                              Inr (foldl (\<lambda>modulesByName (n, c). setEntry modulesByName n c) []
                                     (zip moduleNames contents))))
                | Inr other \<Rightarrow> Inl TypeError)))"

section \<open>Nodes as the parser builds them\<close>

text \<open>
  The node shapes of the ESTree taxonomy, with the fields in the order the parser's node
  constructors assign them. They are used to write concrete programs.
\<close>

definition ident :: "string \<Rightarrow> jsval" where
  "ident n = JObj [(''type'', JStr ''Identifier''), (''name'', JStr n)]"

definition literal :: "jsval \<Rightarrow> string \<Rightarrow> jsval" where
  "literal v raw = JObj [(''type'', JStr ''Literal''), (''value'', v), (''raw'', JStr raw)]"

definition program :: "jsval list \<Rightarrow> jsval" where
  "program stmts =
     JObj [(''type'', JStr ''Program''), (''body'', JArr stmts),
           (''sourceType'', JStr ''script'')]"

definition exprStmt :: "jsval \<Rightarrow> jsval" where
  "exprStmt e = JObj [(''type'', JStr ''ExpressionStatement''), (''expression'', e)]"

definition blockStmt :: "jsval list \<Rightarrow> jsval" where
  "blockStmt stmts = JObj [(''type'', JStr ''BlockStatement''), (''body'', JArr stmts)]"

definition returnStmt :: "jsval \<Rightarrow> jsval" where
  "returnStmt e = JObj [(''type'', JStr ''ReturnStatement''), (''argument'', e)]"

definition callExpr :: "jsval \<Rightarrow> jsval list \<Rightarrow> jsval" where
  "callExpr callee args =
     JObj [(''type'', JStr ''CallExpression''), (''callee'', callee),
           (''arguments'', JArr args)]"

definition unaryExpr :: "string \<Rightarrow> jsval \<Rightarrow> jsval" where
  "unaryExpr operator e =
     JObj [(''type'', JStr ''UnaryExpression''), (''operator'', JStr operator),
           (''argument'', e), (''prefix'', JBool True)]"

definition arrayExpr :: "jsval list \<Rightarrow> jsval" where
  "arrayExpr elements =
     JObj [(''type'', JStr ''ArrayExpression''), (''elements'', JArr elements)]"

definition functionExpr :: "string list \<Rightarrow> jsval list \<Rightarrow> jsval" where
  "functionExpr params stmts =
     JObj [(''type'', JStr ''FunctionExpression''), (''id'', JNull),
           (''params'', JArr (map ident params)), (''body'', blockStmt stmts),
           (''generator'', JBool False), (''expression'', JBool False),
           (''async'', JBool False)]"

definition memberExpr :: "jsval \<Rightarrow> jsval \<Rightarrow> jsval" where
  "memberExpr object property =
     JObj [(''type'', JStr ''MemberExpression''), (''computed'', JBool False),
           (''object'', object), (''property'', property)]"

definition assignExpr :: "jsval \<Rightarrow> jsval \<Rightarrow> jsval" where
  "assignExpr left right =
     JObj [(''type'', JStr ''AssignmentExpression''), (''operator'', JStr ''=''),
           (''left'', left), (''right'', right)]"

definition varDeclarator :: "string \<Rightarrow> jsval \<Rightarrow> jsval" where
  "varDeclarator n init =
     JObj [(''type'', JStr ''VariableDeclarator''), (''id'', ident n), (''init'', init)]"

definition varDecl :: "string \<Rightarrow> jsval list \<Rightarrow> jsval" where
  "varDecl kind declarations =
     JObj [(''type'', JStr ''VariableDeclaration''), (''declarations'', JArr declarations),
           (''kind'', JStr kind)]"

lemmas node_defs =
  ident_def literal_def program_def exprStmt_def blockStmt_def returnStmt_def callExpr_def
  unaryExpr_def arrayExpr_def functionExpr_def memberExpr_def assignExpr_def
  varDeclarator_def varDecl_def

lemmas wrapper_defs = looksLikeWrapper_def andAlso_def isType_def hasLength1_def own_def

section \<open>Shapes of trees\<close>

text \<open>
  Predicates on trees, in which the properties below are stated. \<open>field v k\<close> is the
  field \<open>k\<close> of a node (\<^verbatim>\<open>undefined\<close> when \<open>v\<close> is not an object), \<open>isNode v t\<close> holds of
  a node of type \<open>t\<close>.

  \<open>wrapperShaped call\<close>: a call whose callee is a function expression with exactly one
  formal parameter and whose one argument is an array expression,
  \<^verbatim>\<open>(function(modules){...})([f0, f1, ..., fn])\<close>. \<open>layered call t\<close>: the tree \<open>t\<close> is \<open>call\<close>
  inside any number of unary expressions and expression statements.
\<close>

definition isNode :: "jsval \<Rightarrow> string \<Rightarrow> bool" where
  "isNode v t = (case v of JObj kvs \<Rightarrow> own kvs ''type'' = JStr t | other \<Rightarrow> False)"

definition hasOneElement :: "jsval \<Rightarrow> bool" where
  "hasOneElement v = (case v of JArr xs \<Rightarrow> length xs = 1 | other \<Rightarrow> False)"

definition field :: "jsval \<Rightarrow> string \<Rightarrow> jsval" where
  "field v k = (case v of JObj kvs \<Rightarrow> own kvs k | other \<Rightarrow> JUndefined)"

definition firstOf :: "jsval \<Rightarrow> jsval" where
  "firstOf v = (case v of JArr (x # rest) \<Rightarrow> x | other \<Rightarrow> JUndefined)"

definition wrapperShaped :: "jsval \<Rightarrow> bool" where
  "wrapperShaped call =
     (isNode call ''CallExpression''
      \<and> isNode (field call ''callee'') ''FunctionExpression''
      \<and> hasOneElement (field (field call ''callee'') ''params'')
      \<and> hasOneElement (field call ''arguments'')
      \<and> isNode (firstOf (field call ''arguments'')) ''ArrayExpression'')"

lemmas shape_defs = wrapperShaped_def isNode_def hasOneElement_def field_def firstOf_def

inductive layered :: "jsval \<Rightarrow> jsval \<Rightarrow> bool" for call :: jsval where
  bare: "layered call call"
| unary:
    "layered call e \<Longrightarrow> own kvs ''type'' = JStr ''UnaryExpression''
       \<Longrightarrow> own kvs ''argument'' = e \<Longrightarrow> layered call (JObj kvs)"
| statement:
    "layered call e \<Longrightarrow> own kvs ''type'' = JStr ''ExpressionStatement''
       \<Longrightarrow> own kvs ''expression'' = e \<Longrightarrow> layered call (JObj kvs)"

definition exampleWrapper :: jsval where
  "exampleWrapper =
     callExpr (functionExpr [''modules''] [])
       [arrayExpr [functionExpr [''module'', ''exports'', ''require''] []]]"

text \<open>
  The module \<^verbatim>\<open>function(p, exports, require){ var p = 5; return p; }\<close>, whose body
  declares its first parameter again.
\<close>

definition shadowModule :: "string \<Rightarrow> jsval" where
  "shadowModule p =
     functionExpr [p, ''exports'', ''require'']
       [varDecl ''var'' [varDeclarator p (literal (JNum 5) ''5'')], returnStmt (ident p)]"

lemmas eval_defs =
  node_defs own_def inMap_def mapGet_def setParam_def WEBPACK_MODULE_PARAMS_def
  objectPrototypeKeys_def

text \<open>The decimal digits, of which \<open>showNat\<close> builds its strings.\<close>

definition isDigit :: "char \<Rightarrow> bool" where
  "isDigit c = (c \<in> set ''0123456789'')"

text \<open>
  The call \<^verbatim>\<open>callee(argument)\<close> of an identifier, and a bundle with two modules in which
  module 0 requires module 1, which is declared after it:
  \<^verbatim>\<open>
  (function(modules){})([
    function(e, t, n){ n(1); },
    function(e, t, n){ e.exports = Foo; } ])
  \<close>
  \<open>exportingModule params rights\<close> is a module whose body assigns each of \<open>rights\<close> to
  the \<^verbatim>\<open>exports\<close> of its first parameter.
\<close>

definition requireCall :: "string \<Rightarrow> jsval \<Rightarrow> jsval" where
  "requireCall callee argument = callExpr (ident callee) [argument]"

definition wrapperOf :: "jsval list \<Rightarrow> jsval" where
  "wrapperOf modules = callExpr (functionExpr [''modules''] []) [arrayExpr modules]"

definition requiringModule :: jsval where
  "requiringModule =
     functionExpr [''e'', ''t'', ''n''] [exprStmt (requireCall ''n'' (literal (JNum 1) ''1''))]"

definition exportingModule :: "string list \<Rightarrow> jsval list \<Rightarrow> jsval" where
  "exportingModule params rights =
     functionExpr params
       (map (\<lambda>right. exprStmt (assignExpr (memberExpr (ident (hd params)) (ident ''exports'')) right))
          rights)"

lemmas name_defs =
  recordExport_def isExportsPath_def hasKey_def fallbackName_def enumeratedBefore_def
  arrayIndexKey_def digitsValue_def

text \<open>
  \<open>fieldRemapped pm moduleNames requireName before after\<close> relates a property of a node
  to the property of the result: the same key, and as value the remapped value, or the
  value as it was under the key \<^verbatim>\<open>params\<close>.
\<close>

definition fieldRemapped ::
  "paramMap \<Rightarrow> string list \<Rightarrow> string \<Rightarrow> string \<times> jsval \<Rightarrow> string \<times> jsval \<Rightarrow> bool" where
  "fieldRemapped pm moduleNames requireName before after =
     (fst after = fst before
      \<and> (if fst before = ''params'' then Inr (snd before)
          else remapParams (snd before) pm moduleNames requireName) = Inr (snd after))"




text \<open>
  \<open>noExportAssignment t\<close>: every assignment node in the tree \<open>t\<close> has a left side that
  flattens to a string, and that string does not match \<^verbatim>\<open>(anything.)?exports\<close>.
\<close>

function noExportAssignment :: "jsval \<Rightarrow> bool"
  and noExportInElements :: "jsval list \<Rightarrow> bool"
  and noExportInFields :: "(string \<times> jsval) list \<Rightarrow> bool" where
  "noExportAssignment (JArr xs) = noExportInElements xs"
| "noExportAssignment (JObj kvs) =
     ((if own kvs ''type'' = JStr ''AssignmentExpression'' then
         (case flattenMemberExpression (own kvs ''left'') of
            Inr (JStr path) \<Rightarrow> \<not> isExportsPath path
          | other \<Rightarrow> False)
       else True)
      \<and> noExportInFields kvs)"
| "noExportAssignment JUndefined = True"
| "noExportAssignment JNull = True"
| "noExportAssignment (JBool b) = True"
| "noExportAssignment (JNum n) = True"
| "noExportAssignment (JStr s) = True"
| "noExportAssignment (JNative f) = True"
| "noExportInElements [] = True"
| "noExportInElements (x # rest) = (noExportAssignment x \<and> noExportInElements rest)"
| "noExportInFields [] = True"
| "noExportInFields ((k, v) # rest) = (noExportAssignment v \<and> noExportInFields rest)"
  by pat_completeness auto
termination
  by (relation "measure (\<lambda>x. case x of
         Inl v \<Rightarrow> size v
       | Inr (Inl xs) \<Rightarrow> size_list size xs
       | Inr (Inr kvs) \<Rightarrow> size_list (size_prod (\<lambda>x. 0) size) kvs)") auto

text \<open>
  Two modules: \<^verbatim>\<open>function(e, t, n){ t.value = Foo; n(1); }\<close>, which assigns but not to
  \<^verbatim>\<open>exports\<close>, and \<^verbatim>\<open>function(module, exports, require){ module.exports = Foo; }\<close>.
\<close>

definition plainModule :: jsval where
  "plainModule =
     functionExpr [''e'', ''t'', ''n'']
       [exprStmt (assignExpr (memberExpr (ident ''t'') (ident ''value'')) (ident ''Foo'')),
        exprStmt (requireCall ''n'' (literal (JNum 1) ''1''))]"

definition fooModule :: jsval where
  "fooModule = exportingModule [''module'', ''exports'', ''require''] [ident ''Foo'']"


text \<open>
  A place in a tree is a path from its root: \<open>AtIndex i\<close> steps to the element \<open>i\<close> of an
  array, \<open>AtKey k\<close> to the property \<open>k\<close> of a node; \<open>subtree t path\<close> is the value at the
  place (\<^verbatim>\<open>undefined\<close> when there is none).

  \<open>visit moduleNames t pm requireName path\<close> follows the traversal of \<^verbatim>\<open>remapParams\<close> from
  \<open>t\<close> along \<open>path\<close>. It yields the value at which the traversal arrives together with
  the map and the name of the require function that are passed to the call of
  \<^verbatim>\<open>remapParams\<close> there, and \<open>None\<close> when the traversal does not go that way. The traversal
  does not enter an identifier or a variable declaration, and not the property
  \<^verbatim>\<open>params\<close>. Below an array the names of the scope variables of the array are removed
  from the map and the name of the require function is \<^verbatim>\<open>require\<close> again; below a function
  expression the names of its parameters are removed from the map; below a call the
  traversal continues in the copy, whose arguments the require rule may have replaced.
\<close>

datatype step = AtIndex nat | AtKey string

fun subtree :: "jsval \<Rightarrow> step list \<Rightarrow> jsval" where
  "subtree t [] = t"
| "subtree (JArr xs) (AtIndex i # path) =
     (if i < length xs then subtree (xs ! i) path else JUndefined)"
| "subtree (JObj kvs) (AtKey k # path) = subtree (own kvs k) path"
| "subtree t (s # path) = JUndefined"

fun visit ::
  "string list \<Rightarrow> jsval \<Rightarrow> paramMap \<Rightarrow> string \<Rightarrow> step list
     \<Rightarrow> (jsval \<times> paramMap \<times> string) option" where
  "visit moduleNames t pm requireName [] = Some (t, pm, requireName)"
| "visit moduleNames (JArr xs) pm requireName (AtIndex i # path) =
     (case getScopeVariables (JArr xs) [] of
        Inl e \<Rightarrow> None
      | Inr scopeVariables \<Rightarrow>
          (case deleteNames scopeVariables pm of
             Inl e \<Rightarrow> None
           | Inr pm' \<Rightarrow>
               if i < length xs then visit moduleNames (xs ! i) pm' ''require'' path
               else None))"
| "visit moduleNames (JObj kvs) pm requireName (AtKey k # path) =
     (if k = ''params'' \<or> own kvs ''type'' = JStr ''Identifier''
         \<or> own kvs ''type'' = JStr ''VariableDeclaration'' then None
      else if own kvs ''type'' = JStr ''CallExpression'' then
        (case rewriteRequire kvs pm moduleNames requireName of
           Inl e \<Rightarrow> None
         | Inr node \<Rightarrow> visit moduleNames (own node k) pm requireName path)
      else if own kvs ''type'' = JStr ''FunctionExpression'' then
        (case own kvs ''params'' of
           JArr params \<Rightarrow>
             (case deleteNames params pm of
                Inl e \<Rightarrow> None
              | Inr pm' \<Rightarrow> visit moduleNames (own kvs k) pm' requireName path)
         | other \<Rightarrow> None)
      else visit moduleNames (own kvs k) pm requireName path)"
| "visit moduleNames t pm requireName (s # path) = None"

text \<open>
  Two modules that require module 1: in
  \<^verbatim>\<open>function(e, t, n){ t.load = function(){ return n(1); }; }\<close> the call lies in a nested
  function, at the place \<open>nestedRequirePath\<close> of the body of the module; in
  \<^verbatim>\<open>function(e, t, n){ var a = n(1); }\<close> it is the initializer of a declaration.
\<close>

definition nestedRequireModule :: jsval where
  "nestedRequireModule =
     functionExpr [''e'', ''t'', ''n'']
       [exprStmt (assignExpr (memberExpr (ident ''t'') (ident ''load''))
          (functionExpr []
             [returnStmt (requireCall ''n'' (literal (JNum 1) ''1''))]))]"

definition nestedRequirePath :: "step list" where
  "nestedRequirePath =
     [AtKey ''body'', AtIndex 0, AtKey ''expression'', AtKey ''right'', AtKey ''body'',
      AtKey ''body'', AtIndex 0, AtKey ''argument'']"

definition declaredRequireModule :: jsval where
  "declaredRequireModule =
     functionExpr [''e'', ''t'', ''n'']
       [varDecl ''var'' [varDeclarator ''a'' (requireCall ''n'' (literal (JNum 1) ''1''))]]"






section \<open>The renamer on a store\<close>

text \<open>
  Whether the renamer writes into the tree it is given is a question about objects in
  memory, so \<^verbatim>\<open>remapParams\<close> and \<^verbatim>\<open>processWebpackModule\<close> are modelled a second time, on an
  explicit store. A store is the list of the cells allocated so far, a cell is an array
  or a plain object, and a value is a primitive or the address \<open>HRef a\<close> of a cell. An
  allocation appends a cell; an assignment \<^verbatim>\<open>node[key] = v\<close> replaces the cell at the address
  of \<^verbatim>\<open>node\<close>. An address beyond the store, which no running program holds, is treated as
  a value that is not an object.

  The store can hold a cyclic structure, on which the recursion of the source does not end
  but exhausts the call stack: the functions take the number of calls the stack still
  has room for and throw a \<^verbatim>\<open>RangeError\<close> when it is used up.
\<close>

datatype hval =
    HUndefined | HNull | HBool bool | HNum int | HStr string | HRef nat | HNative string

datatype cell = CArr "hval list" | CObj "(string \<times> hval) list"

type_synonym heap = "cell list"

definition cellAt :: "heap \<Rightarrow> hval \<Rightarrow> cell option" where
  "cellAt h v =
     (case v of HRef a \<Rightarrow> if a < length h then Some (h ! a) else None | other \<Rightarrow> None)"

definition alloc :: "heap \<Rightarrow> cell \<Rightarrow> nat \<times> heap" where
  "alloc h c = (length h, h @ [c])"

definition ownH :: "(string \<times> hval) list \<Rightarrow> string \<Rightarrow> hval" where
  "ownH kvs k = (case map_of kvs k of Some v \<Rightarrow> v | None \<Rightarrow> HUndefined)"

definition fieldsAt :: "heap \<Rightarrow> hval \<Rightarrow> (string \<times> hval) list" where
  "fieldsAt h v = (case cellAt h v of Some (CObj kvs) \<Rightarrow> kvs | other \<Rightarrow> [])"

definition fieldH :: "heap \<Rightarrow> hval \<Rightarrow> string \<Rightarrow> error + hval" where
  "fieldH h v k =
     (if v = HUndefined \<or> v = HNull then Inl TypeError else Inr (ownH (fieldsAt h v) k))"

definition lengthOfH :: "heap \<Rightarrow> hval \<Rightarrow> error + hval" where
  "lengthOfH h v =
     (if v = HUndefined \<or> v = HNull then Inl TypeError
      else case v of
        HStr s \<Rightarrow> Inr (HNum (int (length s)))
      | other \<Rightarrow>
          (case cellAt h v of
             Some (CArr xs) \<Rightarrow> Inr (HNum (int (length xs)))
           | Some (CObj kvs) \<Rightarrow> Inr (ownH kvs ''length'')
           | None \<Rightarrow> Inr HUndefined))"

definition index0H :: "heap \<Rightarrow> hval \<Rightarrow> error + hval" where
  "index0H h v =
     (if v = HUndefined \<or> v = HNull then Inl TypeError
      else case v of
        HStr s \<Rightarrow> Inr (case s of [] \<Rightarrow> HUndefined | c # rest \<Rightarrow> HStr [c])
      | other \<Rightarrow>
          (case cellAt h v of
             Some (CArr xs) \<Rightarrow> Inr (case xs of [] \<Rightarrow> HUndefined | x # rest \<Rightarrow> x)
           | Some (CObj kvs) \<Rightarrow> Inr (ownH kvs ''0'')
           | None \<Rightarrow> Inr HUndefined))"

fun truthyH :: "hval \<Rightarrow> bool" where
  "truthyH HUndefined = False"
| "truthyH HNull = False"
| "truthyH (HBool b) = b"
| "truthyH (HNum n) = (n \<noteq> 0)"
| "truthyH (HStr s) = (s \<noteq> [])"
| "truthyH v = True"

text \<open>
  The string of a value on the store, for property keys and template strings.
  \<^verbatim>\<open>join\<close> prints an array that is being printed already (a cycle) as the empty string;
  \<open>visited\<close> holds the addresses on the current path. A path without a repeated address is
  no longer than the store, so the depth \<open>Suc (length h)\<close> in \<open>keyOf\<close> is never used up.
\<close>

fun commaJoin :: "string list \<Rightarrow> string" where
  "commaJoin [] = ''''"
| "commaJoin [s] = s"
| "commaJoin (s # rest) = s @ '','' @ commaJoin rest"

fun keyPath :: "nat \<Rightarrow> nat list \<Rightarrow> heap \<Rightarrow> hval \<Rightarrow> string" where
  "keyPath fuel visited h HUndefined = ''undefined''"
| "keyPath fuel visited h HNull = ''null''"
| "keyPath fuel visited h (HBool b) = (if b then ''true'' else ''false'')"
| "keyPath fuel visited h (HNum n) =
     (if n < 0 then ''-'' @ showNat (nat (- n)) else showNat (nat n))"
| "keyPath fuel visited h (HStr s) = s"
| "keyPath fuel visited h (HNative b) = builtinString b"
| "keyPath 0 visited h (HRef a) = ''''"
| "keyPath (Suc fuel) visited h (HRef a) =
     (case cellAt h (HRef a) of
        Some (CArr xs) \<Rightarrow>
          if a \<in> set visited then ''''
          else commaJoin
                 (map (\<lambda>x. if x = HUndefined \<or> x = HNull then ''''
                           else keyPath fuel (a # visited) h x) xs)
      | other \<Rightarrow> ''[object Object]'')"

definition keyOf :: "heap \<Rightarrow> hval \<Rightarrow> string" where
  "keyOf h v = keyPath (Suc (length h)) [] h v"

definition mapGetH :: "paramMap \<Rightarrow> string \<Rightarrow> hval" where
  "mapGetH pm k =
     (case pm k of
        Some r \<Rightarrow> HStr r
      | None \<Rightarrow>
          if k \<in> set objectPrototypeKeys then HNative (objectBuiltin k) else HUndefined)"

definition arrayGetH :: "string list \<Rightarrow> string \<Rightarrow> hval" where
  "arrayGetH names key =
     (case filter (\<lambda>i. showNat i = key) [0..<length names] of
        i # rest \<Rightarrow> HStr (names ! i)
      | [] \<Rightarrow>
          if key = ''length'' then HNum (int (length names))
          else if key \<in> set arrayPrototypeKeys \<or> key \<in> set objectPrototypeKeys
          then HNative (arrayBuiltin key)
          else HUndefined)"

fun setFieldH :: "(string \<times> hval) list \<Rightarrow> string \<Rightarrow> hval \<Rightarrow> (string \<times> hval) list" where
  "setFieldH [] k v = [(k, v)]"
| "setFieldH ((k', v') # rest) k v =
     (if k' = k then (k, v) # rest else (k', v') # setFieldH rest k v)"

definition writeField :: "heap \<Rightarrow> nat \<Rightarrow> string \<Rightarrow> hval \<Rightarrow> heap" where
  "writeField h a k v = h[a := CObj (setFieldH (fieldsAt h (HRef a)) k v)]"

definition elementsAt :: "heap \<Rightarrow> hval \<Rightarrow> hval list" where
  "elementsAt h v = (case cellAt h v of Some (CArr xs) \<Rightarrow> xs | other \<Rightarrow> [])"

definition writeElement :: "heap \<Rightarrow> nat \<Rightarrow> nat \<Rightarrow> hval \<Rightarrow> heap" where
  "writeElement h a i v = h[a := CArr ((elementsAt h (HRef a))[i := v])]"

text \<open>
  \<^verbatim>\<open>forEach\<close> loops that may throw: \<open>foldE\<close> threads a value of the loop (an array being
  pushed to, the copy of the map), \<open>forEachH\<close> threads the store.
\<close>

fun foldE :: "('a \<Rightarrow> 's \<Rightarrow> error + 's) \<Rightarrow> 'a list \<Rightarrow> 's \<Rightarrow> error + 's" where
  "foldE f [] s = Inr s"
| "foldE f (x # xs) s = (case f x s of Inl e \<Rightarrow> Inl e | Inr s' \<Rightarrow> foldE f xs s')"

fun forEachH ::
  "('a \<Rightarrow> heap \<Rightarrow> (error + unit) \<times> heap) \<Rightarrow> 'a list \<Rightarrow> heap \<Rightarrow> (error + unit) \<times> heap" where
  "forEachH f [] h = (Inr (), h)"
| "forEachH f (x # xs) h =
     (case f x h of
        (Inl e, h') \<Rightarrow> (Inl e, h')
      | (Inr u, h') \<Rightarrow> forEachH f xs h')"

text \<open>
  \<^verbatim>\<open>getScopeVariables\<close> on the store. It only reads the tree; the array
  \<^verbatim>\<open>scopeVariables\<close> it pushes to is created by the call (the default value of the
  parameter) and is held as a list.
\<close>

definition pushIdsH :: "heap \<Rightarrow> hval list \<Rightarrow> hval list \<Rightarrow> error + hval list" where
  "pushIdsH h declarations scopeVariables =
     foldE (\<lambda>declaration found.
              case fieldH h declaration ''id'' of
                Inl e \<Rightarrow> Inl e
              | Inr i \<Rightarrow> Inr (found @ [i]))
       declarations scopeVariables"

fun getScopeVariablesH :: "nat \<Rightarrow> heap \<Rightarrow> hval \<Rightarrow> hval list \<Rightarrow> error + hval list" where
  "getScopeVariablesH 0 h node scopeVariables = Inl RangeError"
| "getScopeVariablesH (Suc depth) h node scopeVariables =
     (case cellAt h node of
        None \<Rightarrow> Inr scopeVariables
      | Some (CArr xs) \<Rightarrow>
          foldE (\<lambda>x found. getScopeVariablesH depth h x found) xs scopeVariables
      | Some (CObj kvs) \<Rightarrow>
          if ownH kvs ''type'' = HStr ''VariableDeclaration'' then
            (if ownH kvs ''kind'' = HStr ''var'' then
               (case cellAt h (ownH kvs ''declarations'') of
                  Some (CArr declarations) \<Rightarrow> pushIdsH h declarations scopeVariables
                | other \<Rightarrow> Inl TypeError)
             else Inr scopeVariables)
          else foldE (\<lambda>kv found. getScopeVariablesH depth h (snd kv) found) kvs scopeVariables)"

text \<open>
  The map \<^verbatim>\<open>paramMap\<close> is held as a value: every call of \<^verbatim>\<open>remapParams\<close> copies the
  map it is given (\<^verbatim>\<open>{ ...srcParamMap }\<close>) before it deletes from it, and
  \<^verbatim>\<open>processWebpackModule\<close> builds a new one. The array \<^verbatim>\<open>moduleNames\<close> is only read.
\<close>

definition deleteNamesH :: "heap \<Rightarrow> hval list \<Rightarrow> paramMap \<Rightarrow> error + paramMap" where
  "deleteNamesH h params pm =
     foldE (\<lambda>param m.
              case fieldH h param ''name'' of
                Inl e \<Rightarrow> Inl e
              | Inr n \<Rightarrow> Inr (m(keyOf h n := None)))
       params pm"

text \<open>
  The call case: the literal and the array that holds it are allocated, and the new
  array is assigned to \<^verbatim>\<open>node.arguments\<close>, where \<open>node\<close> is the address of the copy.
\<close>

definition requireLiteralH :: "string \<Rightarrow> cell" where
  "requireLiteralH moduleName =
     CObj [(''type'', HStr ''Literal''), (''value'', HStr (''./'' @ moduleName)),
           (''raw'', HStr ([CHR 0x27] @ ''./'' @ moduleName @ [CHR 0x27]))]"

definition rewriteRequireH ::
  "heap \<Rightarrow> nat \<Rightarrow> paramMap \<Rightarrow> string list \<Rightarrow> string \<Rightarrow> (error + unit) \<times> heap" where
  "rewriteRequireH h node pm moduleNames requireName =
     (case fieldH h (ownH (fieldsAt h (HRef node)) ''callee'') ''name'' of
        Inl e \<Rightarrow> (Inl e, h)
      | Inr calleeName \<Rightarrow>
          if inMap pm (keyOf h calleeName)
             \<and> mapGetH pm (keyOf h calleeName) = HStr requireName then
            (case lengthOfH h (ownH (fieldsAt h (HRef node)) ''arguments'') of
               Inl e \<Rightarrow> (Inl e, h)
             | Inr len \<Rightarrow>
                 if len = HNum 1 then
                   (case index0H h (ownH (fieldsAt h (HRef node)) ''arguments'') of
                      Inl e \<Rightarrow> (Inl e, h)
                    | Inr arg \<Rightarrow>
                        (case fieldH h arg ''value'' of
                           Inl e \<Rightarrow> (Inl e, h)
                         | Inr v \<Rightarrow>
                             if truthyH (arrayGetH moduleNames (keyOf h v)) then
                               (case alloc h (requireLiteralH
                                                (keyOf h (arrayGetH moduleNames (keyOf h v)))) of
                                  (lit, h1) \<Rightarrow>
                                    (case alloc h1 (CArr [HRef lit]) of
                                       (arr, h2) \<Rightarrow>
                                         (Inr (), writeField h2 node ''arguments'' (HRef arr))))
                             else (Inr (), h)))
                 else (Inr (), h))
          else (Inr (), h))"

text \<open>
  \<^verbatim>\<open>remapParams\<close> on the store. For an array, \<^verbatim>\<open>srcNode.map\<close> allocates the result array
  and then stores the result of every element in it. For a node, \<^verbatim>\<open>{ ...srcNode }\<close>
  allocates the copy \<open>node\<close>; every later assignment (\<^verbatim>\<open>node.arguments\<close>, \<^verbatim>\<open>node.name\<close>,
  \<^verbatim>\<open>node[key]\<close>) is a write to the cell of the copy. The loop runs over the keys the copy
  has when the loop starts and reads \<^verbatim>\<open>node[key]\<close> from the store as it is then.
\<close>

fun remapParamsH ::
  "nat \<Rightarrow> heap \<Rightarrow> hval \<Rightarrow> paramMap \<Rightarrow> string list \<Rightarrow> string \<Rightarrow> (error + hval) \<times> heap" where
  "remapParamsH 0 h srcNode pm moduleNames requireName = (Inl RangeError, h)"
| "remapParamsH (Suc depth) h srcNode pm moduleNames requireName =
     (case cellAt h srcNode of
        None \<Rightarrow> (Inr srcNode, h)
      | Some (CArr xs) \<Rightarrow>
          (case getScopeVariablesH depth h srcNode [] of
             Inl e \<Rightarrow> (Inl e, h)
           | Inr scopeVariables \<Rightarrow>
               (case deleteNamesH h scopeVariables pm of
                  Inl e \<Rightarrow> (Inl e, h)
                | Inr pm' \<Rightarrow>
                    (case alloc h (CArr (replicate (length xs) HUndefined)) of
                       (result, h1) \<Rightarrow>
                         (case forEachH
                                 (\<lambda>i hi.
                                    case remapParamsH depth hi (elementsAt hi srcNode ! i) pm'
                                           moduleNames ''require'' of
                                      (Inl e, hj) \<Rightarrow> (Inl e, hj)
                                    | (Inr r, hj) \<Rightarrow> (Inr (), writeElement hj result i r))
                                 [0..<length xs] h1 of
                            (Inl e, h2) \<Rightarrow> (Inl e, h2)
                          | (Inr u, h2) \<Rightarrow> (Inr (HRef result), h2)))))
      | Some (CObj kvs) \<Rightarrow>
          (case alloc h (CObj kvs) of
             (node, h1) \<Rightarrow>
               (case (if ownH kvs ''type'' = HStr ''CallExpression'' then
                        (case rewriteRequireH h1 node pm moduleNames requireName of
                           (Inl e, h2) \<Rightarrow> (Inl e, h2)
                         | (Inr u, h2) \<Rightarrow> (Inr pm, h2))
                      else if ownH kvs ''type'' = HStr ''Identifier'' then
                        (if inMap pm (keyOf h1 (ownH kvs ''name''))
                         then (Inr pm, writeField h1 node ''name''
                                         (mapGetH pm (keyOf h1 (ownH kvs ''name''))))
                         else (Inr pm, h1))
                      else if ownH kvs ''type'' = HStr ''FunctionExpression'' then
                        (case cellAt h1 (ownH kvs ''params'') of
                           Some (CArr params) \<Rightarrow>
                             (case deleteNamesH h1 params pm of
                                Inl e \<Rightarrow> (Inl e, h1)
                              | Inr pm' \<Rightarrow> (Inr pm', h1))
                         | other \<Rightarrow> (Inl TypeError, h1))
                      else (Inr pm, h1)) of
                  (Inl e, h2) \<Rightarrow> (Inl e, h2)
                | (Inr pm', h2) \<Rightarrow>
                    if ownH kvs ''type'' = HStr ''Identifier''
                       \<or> ownH kvs ''type'' = HStr ''VariableDeclaration''
                    then (Inr (HRef node), h2)
                    else
                      (case forEachH
                              (\<lambda>key hi.
                                 if key = ''params'' then (Inr (), hi)
                                 else
                                   (case remapParamsH depth hi
                                           (ownH (fieldsAt hi (HRef node)) key) pm'
                                           moduleNames requireName of
                                      (Inl e, hj) \<Rightarrow> (Inl e, hj)
                                    | (Inr r, hj) \<Rightarrow> (Inr (), writeField hj node key r)))
                              (map fst (fieldsAt h2 (HRef node))) h2 of
                         (Inl e, h3) \<Rightarrow> (Inl e, h3)
                       | (Inr u, h3) \<Rightarrow> (Inr (HRef node), h3)))))"

text \<open>
  \<^verbatim>\<open>processWebpackModule\<close> on the store:
  \<^verbatim>\<open>Object.assign({}, module, { body: remapParams(module.body, paramMap, moduleNames) })\<close>
  allocates the target, runs \<^verbatim>\<open>remapParams\<close>, allocates the object that holds the new
  body, and assigns the properties of the module and then the new body to the target.
\<close>

definition seedParamsH :: "heap \<Rightarrow> hval list \<Rightarrow> error + paramMap" where
  "seedParamsH h params =
     foldE (\<lambda>(i, param) m.
              if i < length WEBPACK_MODULE_PARAMS then
                (case fieldH h param ''name'' of
                   Inl e \<Rightarrow> Inl e
                 | Inr n \<Rightarrow> Inr (setParam m (keyOf h n) (WEBPACK_MODULE_PARAMS ! i)))
              else Inr m)
       (zip [0..<length params] params) Map.empty"

definition processWebpackModuleH ::
  "nat \<Rightarrow> heap \<Rightarrow> hval \<Rightarrow> string list \<Rightarrow> (error + hval) \<times> heap" where
  "processWebpackModuleH depth h module moduleNames =
     (case fieldH h module ''type'' of
        Inl e \<Rightarrow> (Inl e, h)
      | Inr ty \<Rightarrow>
          if ty = HStr ''FunctionExpression'' \<and> truthyH (ownH (fieldsAt h module) ''body'') then
            (case cellAt h (ownH (fieldsAt h module) ''params'') of
               Some (CArr params) \<Rightarrow>
                 (case seedParamsH h params of
                    Inl e \<Rightarrow> (Inl e, h)
                  | Inr pm \<Rightarrow>
                      (case alloc h (CObj []) of
                         (target, h1) \<Rightarrow>
                           (case remapParamsH depth h1 (ownH (fieldsAt h1 module) ''body'') pm
                                   moduleNames ''require'' of
                              (Inl e, h2) \<Rightarrow> (Inl e, h2)
                            | (Inr body, h2) \<Rightarrow>
                                (case alloc h2 (CObj [(''body'', body)]) of
                                   (source, h3) \<Rightarrow>
                                     (Inr (HRef target),
                                      h3[target := CObj (setFieldH (fieldsAt h3 module)
                                                           ''body'' body)])))))
             | other \<Rightarrow> (Inl TypeError, h))
          else (Inr module, h))"

text \<open>
  \<open>unchanged h h'\<close>: every cell of the store \<open>h\<close> is in \<open>h'\<close> at the same address with
  the same contents. \<open>freshIn h h' v\<close>: the value \<open>v\<close> is the address of a cell that \<open>h'\<close>
  has and \<open>h\<close> does not have. \<open>grown h0 n h\<close> is the invariant of the loops.
\<close>

definition unchanged :: "heap \<Rightarrow> heap \<Rightarrow> bool" where
  "unchanged h h' = (length h \<le> length h' \<and> take (length h) h' = h)"

definition freshIn :: "heap \<Rightarrow> heap \<Rightarrow> hval \<Rightarrow> bool" where
  "freshIn h h' v = (case v of HRef a \<Rightarrow> length h \<le> a \<and> a < length h' | other \<Rightarrow> False)"

definition grown :: "heap \<Rightarrow> nat \<Rightarrow> heap \<Rightarrow> bool" where
  "grown h0 n h = (unchanged h0 h \<and> n \<le> length h)"

text \<open>
  \<open>storeTree\<close> allocates a tree on a store, the children of a node before the node, and
  \<open>readTree\<close> reads the tree at a value back, down to a depth; they connect a store to the
  trees of the first model. The example is the module \<^verbatim>\<open>function(e){ return e; }\<close>.
\<close>

fun primOf :: "hval \<Rightarrow> jsval" where
  "primOf HUndefined = JUndefined"
| "primOf HNull = JNull"
| "primOf (HBool b) = JBool b"
| "primOf (HNum n) = JNum n"
| "primOf (HStr s) = JStr s"
| "primOf (HNative k) = JNative k"
| "primOf (HRef a) = JUndefined"

function storeTree :: "jsval \<Rightarrow> heap \<Rightarrow> hval \<times> heap"
  and storeElements :: "jsval list \<Rightarrow> heap \<Rightarrow> hval list \<times> heap"
  and storeFields :: "(string \<times> jsval) list \<Rightarrow> heap \<Rightarrow> (string \<times> hval) list \<times> heap" where
  "storeTree JUndefined h = (HUndefined, h)"
| "storeTree JNull h = (HNull, h)"
| "storeTree (JBool b) h = (HBool b, h)"
| "storeTree (JNum n) h = (HNum n, h)"
| "storeTree (JStr s) h = (HStr s, h)"
| "storeTree (JNative k) h = (HNative k, h)"
| "storeTree (JArr xs) h =
     (case storeElements xs h of (vs, h1) \<Rightarrow> (HRef (length h1), h1 @ [CArr vs]))"
| "storeTree (JObj kvs) h =
     (case storeFields kvs h of (fs, h1) \<Rightarrow> (HRef (length h1), h1 @ [CObj fs]))"
| "storeElements [] h = ([], h)"
| "storeElements (x # rest) h =
     (case storeTree x h of
        (v, h1) \<Rightarrow> (case storeElements rest h1 of (vs, h2) \<Rightarrow> (v # vs, h2)))"
| "storeFields [] h = ([], h)"
| "storeFields ((k, x) # rest) h =
     (case storeTree x h of
        (v, h1) \<Rightarrow> (case storeFields rest h1 of (fs, h2) \<Rightarrow> ((k, v) # fs, h2)))"
  by pat_completeness auto
termination
  by (relation "measure (\<lambda>x. case x of
         Inl (v, a) \<Rightarrow> size v
       | Inr (Inl (xs, a)) \<Rightarrow> size_list size xs
       | Inr (Inr (kvs, a)) \<Rightarrow> size_list (size_prod (\<lambda>x. 0) size) kvs)") auto

fun readTree :: "nat \<Rightarrow> heap \<Rightarrow> hval \<Rightarrow> jsval option" where
  "readTree depth h (HRef a) =
     (case depth of
        0 \<Rightarrow> None
      | Suc d \<Rightarrow>
          (case cellAt h (HRef a) of
             None \<Rightarrow> None
           | Some (CArr xs) \<Rightarrow> map_option JArr (those (map (readTree d h) xs))
           | Some (CObj kvs) \<Rightarrow>
               map_option JObj
                 (those (map (\<lambda>kv. map_option (Pair (fst kv)) (readTree d h (snd kv))) kvs))))"
| "readTree depth h v = Some (primOf v)"

definition exampleTree :: jsval where
  "exampleTree = functionExpr [''e''] [returnStmt (ident ''e'')]"

definition exampleHeap :: heap where
  "exampleHeap = snd (storeTree exampleTree [])"

definition exampleModule :: hval where
  "exampleModule = fst (storeTree exampleTree [])"

lemmas store_defs =
  cellAt_def alloc_def ownH_def fieldsAt_def fieldH_def lengthOfH_def index0H_def keyOf_def
  mapGetH_def writeField_def elementsAt_def writeElement_def pushIdsH_def deleteNamesH_def
  seedParamsH_def rewriteRequireH_def processWebpackModuleH_def

section \<open>Properties of the wrapper locator\<close>

lemma wrapperShaped_found:
  assumes "wrapperShaped call"
  shows "findWebpackExpression call = Inr call"
proof -
  from assms obtain kvs where call: "call = JObj kvs"
    by (cases call) (auto simp: shape_defs)
  from assms have ty: "own kvs ''type'' = JStr ''CallExpression''"
    by (simp add: call shape_defs)
  from assms have "looksLikeWrapper kvs = Inr True"
    by (auto simp: call shape_defs looksLikeWrapper_def
        andAlso_def isType_def hasLength1_def length_Suc_conv split: jsval.splits)
  with ty show ?thesis by (simp add: call)
qed

lemma layered_object:
  "layered call t \<Longrightarrow> wrapperShaped call \<Longrightarrow> truthy t"
  by (induction rule: layered.induct) (cases call; auto simp: shape_defs)+

lemma layered_found:
  assumes "layered call t" and "wrapperShaped call"
  shows "findWebpackExpression t = Inr call"
  using assms
proof (induction rule: layered.induct)
  case bare
  then show ?case by (rule wrapperShaped_found)
next
  case (unary e kvs)
  then show ?case by simp
next
  case (statement e kvs)
  then have "truthy (own kvs ''expression'')" using layered_object by simp
  with statement show ?case by simp
qed

text \<open>
  Claim C7. A call shaped as the wrapper is located as itself, and so it is under any
  number of unary-expression and expression-statement layers, also as the one statement
  of a program.
\<close>

theorem locator_finds_wrapper_under_layers:
  assumes "wrapperShaped call" and "layered call t"
  shows "findWebpackExpression t = Inr call
    \<and> findWebpackExpression (program [t]) = Inr call"
proof -
  have found: "findWebpackExpression t = Inr call"
    using assms layered_found by simp
  from assms obtain kvs where "call = JObj kvs"
    by (cases call) (auto simp: shape_defs)
  then have "truthy call" by simp
  with found show ?thesis by (simp add: program_def own_def)
qed

theorem locator_finds_wrapper_under_layers_witness:
  "wrapperShaped exampleWrapper
   \<and> layered exampleWrapper (exprStmt (unaryExpr ''!'' exampleWrapper))
   \<and> findWebpackExpression (exprStmt (unaryExpr ''!'' exampleWrapper)) = Inr exampleWrapper
   \<and> findWebpackExpression (program [exprStmt (unaryExpr ''!'' exampleWrapper)])
       = Inr exampleWrapper"
proof -
  have shaped: "wrapperShaped exampleWrapper"
    by (simp add: exampleWrapper_def node_defs own_def shape_defs)
  have "layered exampleWrapper (unaryExpr ''!'' exampleWrapper)"
    unfolding unaryExpr_def by (rule layered.unary [OF layered.bare]) (simp_all add: own_def)
  then have layers: "layered exampleWrapper (exprStmt (unaryExpr ''!'' exampleWrapper))"
    unfolding exprStmt_def by (rule layered.statement) (simp_all add: own_def)
  from shaped layers locator_finds_wrapper_under_layers [OF shaped layers]
  show ?thesis by simp
qed

text \<open>
  Claim C1. The search of a statement list keeps the result of the last statement only:
  a program whose one statement is the wrapper is located, and the same program with a
  second statement \<^verbatim>\<open>x;\<close> after the wrapper yields \<^verbatim>\<open>null\<close>, where the first non-null result
  in document order is the wrapper.
\<close>

theorem locator_keeps_last_statement_only:
  "findWebpackExpression (program [exprStmt exampleWrapper]) = Inr exampleWrapper
   \<and> findWebpackExpression (program [exprStmt exampleWrapper, exprStmt (ident ''x'')])
       = Inr JNull"
  by (simp add: exampleWrapper_def node_defs wrapper_defs)

text \<open>
  Claim C3. On the program \<^verbatim>\<open>(function(a, b){})(1, 2);\<close> the locator descends into the
  callee, a function expression whose \<^verbatim>\<open>body\<close> is a block and not a statement list, and
  throws a \<^verbatim>\<open>TypeError\<close>. The extractor throws as well on a registry array with a hole,
  \<^verbatim>\<open>[function(){}, , function(){}]\<close>, whose element the parser gives as \<^verbatim>\<open>null\<close>.
\<close>

theorem locator_throws_on_block_body:
  "findWebpackExpression
     (program [exprStmt (callExpr (functionExpr [''a'', ''b''] [])
                           [literal (JNum 1) ''1'', literal (JNum 2) ''2''])])
   = Inl TypeError
   \<and> extractWebpackExpressionModules generate
       (wrapperOf [functionExpr [] [], JNull, functionExpr [] []])
     = Inl TypeError"
  by (simp add: extractWebpackExpressionModules_def wrapperOf_def node_defs wrapper_defs
      fallbackName_def)

section \<open>Properties of the renamer\<close>

text \<open>
  Claim C4. For the module \<^verbatim>\<open>function(p, exports, require){ var p = 5; return p; }\<close> the
  declaration \<^verbatim>\<open>var p\<close> in the statement list of the body removes \<open>p\<close> from the Parameter
  Map for that list: the module is returned with every occurrence of \<open>p\<close> as it was. The
  claim is the case \<open>p = module\<close>; the statement holds for every parameter name that is not
  a property of \<^verbatim>\<open>Object.prototype\<close> (such a name is \<^verbatim>\<open>in\<close> every map).
\<close>

theorem var_redeclaration_blocks_substitution:
  assumes "p \<notin> set objectPrototypeKeys"
  shows "processWebpackModule (shadowModule p) moduleNames = Inr (shadowModule p)"
  using assms by (simp add: shadowModule_def eval_defs)

text \<open>
  The witness: the module of the claim, the same module with the minified parameter name
  \<open>e\<close>, and, for contrast, a body without the declaration, where \<^verbatim>\<open>return e\<close> becomes
  \<^verbatim>\<open>return module\<close>.
\<close>

theorem var_redeclaration_blocks_substitution_witness:
  "''module'' \<notin> set objectPrototypeKeys
   \<and> processWebpackModule (shadowModule ''module'') [] = Inr (shadowModule ''module'')
   \<and> processWebpackModule (shadowModule ''e'') [] = Inr (shadowModule ''e'')
   \<and> processWebpackModule (functionExpr [''e'', ''t'', ''n''] [returnStmt (ident ''e'')]) []
       = Inr (functionExpr [''e'', ''t'', ''n''] [returnStmt (ident ''module'')])"
proof -
  have a: "''module'' \<notin> set objectPrototypeKeys" by (simp add: objectPrototypeKeys_def)
  have b: "''e'' \<notin> set objectPrototypeKeys" by (simp add: objectPrototypeKeys_def)
  have c: "processWebpackModule (functionExpr [''e'', ''t'', ''n''] [returnStmt (ident ''e'')]) []
       = Inr (functionExpr [''e'', ''t'', ''n''] [returnStmt (ident ''module'')])"
    by (simp add: eval_defs)
  from a c var_redeclaration_blocks_substitution [OF a, of "[]"]
    var_redeclaration_blocks_substitution [OF b, of "[]"]
  show ?thesis by simp
qed

lemma digit_char: "d < 10 \<Longrightarrow> isDigit (''0123456789'' ! d)"
  unfolding isDigit_def by (rule nth_mem) simp

lemma digit_inj:
  assumes "a < 10" and "b < 10" and "''0123456789'' ! a = ''0123456789'' ! b"
  shows "a = b"
proof -
  have "distinct ''0123456789''" by simp
  with assms show ?thesis by (simp add: nth_eq_iff_index_eq)
qed

lemma showNat_digits: "list_all isDigit (showNat n)"
proof (induction n rule: showNat.induct)
  case (1 n)
  show ?case
  proof (cases "n < 10")
    case True
    then show ?thesis by (simp add: showNat.simps [of n] digit_char)
  next
    case False
    with 1 show ?thesis by (simp add: showNat.simps [of n] digit_char)
  qed
qed

lemma showNat_nonempty: "showNat n \<noteq> []"
  by (subst showNat.simps) simp

lemma showNat_inj: "showNat a = showNat b \<Longrightarrow> a = b"
proof (induction a arbitrary: b rule: showNat.induct)
  case (1 a)
  show ?case
  proof (cases "a < 10")
    case small_a: True
    show ?thesis
    proof (cases "b < 10")
      case True
      with small_a 1 show ?thesis
        by (simp add: showNat.simps [of a] showNat.simps [of b] digit_inj)
    next
      case False
      with small_a 1 show ?thesis
        using showNat_nonempty [of "b div 10"]
        by (simp add: showNat.simps [of a] showNat.simps [of b])
    qed
  next
    case big_a: False
    show ?thesis
    proof (cases "b < 10")
      case True
      with big_a 1 show ?thesis
        using showNat_nonempty [of "a div 10"]
        by (simp add: showNat.simps [of a] showNat.simps [of b])
    next
      case False
      with big_a "1.prems" have "showNat (a div 10) = showNat (b div 10)"
        and "''0123456789'' ! (a mod 10) = ''0123456789'' ! (b mod 10)"
        by (simp_all add: showNat.simps [of a] showNat.simps [of b])
      with big_a "1.IH" [of "b div 10"] have "a div 10 = b div 10" and "a mod 10 = b mod 10"
        by (simp_all add: digit_inj)
      then show ?thesis by (metis div_mult_mod_eq)
    qed
  qed
qed

lemma filter_showNat_hit:
  "k < n \<Longrightarrow> filter (\<lambda>i. showNat i = showNat k) [0..<n] = [k]"
proof (induction n)
  case 0
  then show ?case by simp
next
  case (Suc n)
  show ?case
  proof (cases "k < n")
    case True
    with Suc have "filter (\<lambda>i. showNat i = showNat k) [0..<n] = [k]" by simp
    moreover from True have "showNat n \<noteq> showNat k" by (auto dest: showNat_inj)
    ultimately show ?thesis by simp
  next
    case False
    with Suc.prems have "k = n" by simp
    moreover have "filter (\<lambda>i. showNat i = showNat n) [0..<n] = []"
      by (auto simp: filter_empty_conv dest: showNat_inj)
    ultimately show ?thesis by simp
  qed
qed

lemma filter_showNat_miss:
  "n \<le> k \<Longrightarrow> filter (\<lambda>i. showNat i = showNat k) [0..<n] = []"
  by (auto simp: filter_empty_conv dest: showNat_inj)

lemma not_digits_not_showNat: "\<not> list_all isDigit s \<Longrightarrow> showNat k \<noteq> s"
  using showNat_digits [of k] by auto

lemma arrayGet_index:
  assumes "jsToString v = showNat k"
  shows "arrayGet moduleNames v =
     (if k < length moduleNames then JStr (moduleNames ! k) else JUndefined)"
proof (cases "k < length moduleNames")
  case True
  then show ?thesis by (simp add: arrayGet_def assms filter_showNat_hit)
next
  case False
  have "showNat k \<noteq> ''length''"
    by (rule not_digits_not_showNat) (simp add: isDigit_def)
  moreover have "showNat k \<notin> set arrayPrototypeKeys"
  proof
    assume "showNat k \<in> set arrayPrototypeKeys"
    moreover have "list_all (\<lambda>s. \<not> list_all isDigit s) arrayPrototypeKeys"
      by (simp add: arrayPrototypeKeys_def isDigit_def)
    ultimately have "\<not> list_all isDigit (showNat k)" by (simp add: list_all_iff)
    then show False by (simp add: showNat_digits)
  qed
  moreover have "showNat k \<notin> set objectPrototypeKeys"
  proof
    assume "showNat k \<in> set objectPrototypeKeys"
    moreover have "list_all (\<lambda>s. \<not> list_all isDigit s) objectPrototypeKeys"
      by (simp add: objectPrototypeKeys_def isDigit_def)
    ultimately have "\<not> list_all isDigit (showNat k)" by (simp add: list_all_iff)
    then show False by (simp add: showNat_digits)
  qed
  ultimately show ?thesis using False by (simp add: arrayGet_def assms filter_showNat_miss)
qed

lemma moduleId_string:
  "v = JNum (int k) \<or> v = JStr (showNat k) \<Longrightarrow> jsToString v = showNat k"
  by auto

lemma remap_moduleId_literal:
  "v = JNum (int k) \<or> v = JStr (showNat k) \<Longrightarrow>
     remapParams (literal v raw) pm moduleNames requireName = Inr (literal v raw)"
  by (auto simp: literal_def own_def)

lemma scope_moduleId_literal:
  "v = JNum (int k) \<or> v = JStr (showNat k) \<Longrightarrow>
     getScopeVariables (literal v raw) acc = Inr acc"
  by (auto simp: literal_def own_def)

lemma remap_path_literal:
  "remapParams (literal (JStr s) raw) pm moduleNames requireName = Inr (literal (JStr s) raw)"
  by (simp add: literal_def own_def)

lemma scope_path_literal: "getScopeVariables (literal (JStr s) raw) acc = Inr acc"
  by (simp add: literal_def own_def)

lemma requireLiteral_literal:
  "requireLiteral s = literal (JStr (''./'' @ s)) ([CHR 0x27] @ ''./'' @ s @ [CHR 0x27])"
  by (simp add: requireLiteral_def literal_def)

lemma require_rewrite_at_call:
  assumes "pm n = Some ''require''" and "v = JNum (int k) \<or> v = JStr (showNat k)"
  shows "remapParams (requireCall n (literal v raw)) pm moduleNames ''require''
     = Inr (requireCall ''require''
              (if k < length moduleNames \<and> moduleNames ! k \<noteq> ''''
               then literal (JStr (''./'' @ moduleNames ! k))
                      ([CHR 0x27] @ ''./'' @ moduleNames ! k @ [CHR 0x27])
               else literal v raw))"
proof -
  let ?node = "[(''type'', JStr ''CallExpression''), (''callee'', ident n),
                (''arguments'', JArr [literal v raw])]"
  have callee: "remapParams (ident n) pm moduleNames ''require'' = Inr (ident ''require'')"
    using assms(1) by (simp add: ident_def own_def inMap_def mapGet_def dom_def)
  have index: "arrayGet moduleNames v =
     (if k < length moduleNames then JStr (moduleNames ! k) else JUndefined)"
    using assms(2) by (intro arrayGet_index moduleId_string)
  have rewrite: "rewriteRequire ?node pm moduleNames ''require'' =
      Inr (if k < length moduleNames \<and> moduleNames ! k \<noteq> ''''
           then [(''type'', JStr ''CallExpression''), (''callee'', ident n),
                 (''arguments'', JArr [literal (JStr (''./'' @ moduleNames ! k))
                      ([CHR 0x27] @ ''./'' @ moduleNames ! k @ [CHR 0x27])])]
           else ?node)"
    using assms(1)
    by (simp add: rewriteRequire_def own_def ident_def inMap_def mapGet_def dom_def
        hasLength1_def index requireLiteral_def literal_def)
  show ?thesis
    using callee
    by (simp add: requireCall_def callExpr_def rewrite remap_moduleId_literal [OF assms(2)]
        scope_moduleId_literal [OF assms(2)] remap_path_literal scope_path_literal
        own_def [of "[(''type'', JStr ''CallExpression''), (''callee'', ident n),
                (''arguments'', JArr [literal v raw])]"])
qed

lemma remapElements_nth:
  "remapElements xs pm moduleNames = Inr ys \<Longrightarrow>
     length ys = length xs
     \<and> (\<forall>i<length xs. remapParams (xs ! i) pm moduleNames ''require'' = Inr (ys ! i))"
proof (induction xs arbitrary: ys)
  case Nil
  then show ?case by simp
next
  case (Cons x xs)
  from Cons.prems obtain y rest where y: "remapParams x pm moduleNames ''require'' = Inr y"
    and rest: "remapElements xs pm moduleNames = Inr rest" and ys: "ys = y # rest"
    by (auto split: sum.splits)
  from Cons.IH [OF rest] y ys show ?case by (auto simp: nth_Cons split: nat.splits)
qed

lemma own_Cons: "own ((k', v) # kvs) k = (if k' = k then v else own kvs k)"
  by (simp add: own_def)

lemma remapFields_own:
  "remapFields kvs pm moduleNames requireName = Inr kvs' \<Longrightarrow> k \<noteq> ''params''
     \<Longrightarrow> remapParams (own kvs k) pm moduleNames requireName = Inr (own kvs' k)"
proof (induction kvs arbitrary: kvs')
  case Nil
  then show ?case by (simp add: own_def)
next
  case (Cons p kvs)
  obtain k0 v0 where p: "p = (k0, v0)" by (cases p)
  from Cons.prems(1) obtain v0' rest where
    v0: "(if k0 = ''params'' then Inr v0 else remapParams v0 pm moduleNames requireName) = Inr v0'"
    and rest: "remapFields kvs pm moduleNames requireName = Inr rest"
    and kvs': "kvs' = (k0, v0') # rest"
    by (auto simp: p split: sum.splits)
  show ?case
  proof (cases "k0 = k")
    case True
    with v0 Cons.prems(2) show ?thesis by (simp add: p kvs' own_Cons)
  next
    case False
    with Cons.IH [OF rest Cons.prems(2)] show ?thesis by (simp add: p kvs' own_Cons)
  qed
qed

lemma visit_result:
  "visit moduleNames t pm requireName path = Some (c, pm', requireName')
     \<Longrightarrow> remapParams t pm moduleNames requireName = Inr t'
     \<Longrightarrow> remapParams c pm' moduleNames requireName' = Inr (subtree t' path)"
proof (induction moduleNames t pm requireName path arbitrary: t' rule: visit.induct)
  case (1 moduleNames t pm requireName)
  then show ?case by simp
next
  case (2 moduleNames xs pm requireName i path)
  then show ?case
    by (auto split: sum.splits if_splits dest: remapElements_nth)
next
  case (3 moduleNames kvs pm requireName k path)
  then show ?case
    by (auto split: sum.splits if_splits jsval.splits dest: remapFields_own)
qed simp_all

lemma visit_require:
  "visit moduleNames t pm requireName path = Some (c, pm', requireName')
     \<Longrightarrow> requireName = ''require'' \<Longrightarrow> requireName' = ''require''"
  by (induction moduleNames t pm requireName path rule: visit.induct)
     (auto split: sum.splits if_splits jsval.splits)

lemma visit_truthy:
  "visit moduleNames t pm requireName path = Some (JObj c, pm', requireName') \<Longrightarrow> truthy t"
  by (cases "(moduleNames, t, pm, requireName, path)" rule: visit.cases) auto

lemma own_setField_same: "own (setField kvs k v) k = v"
  by (induction kvs k v rule: setField.induct) (auto simp: own_def)

lemma moduleNamesFrom_nth:
  "moduleNamesFrom ms k = Inr ns \<Longrightarrow> i < length ms
     \<Longrightarrow> getModuleName (ms ! i) (k + i) = Inr (ns ! i)"
proof (induction ms arbitrary: k ns i)
  case Nil
  then show ?case by simp
next
  case (Cons m ms)
  from Cons.prems(1) obtain n rest where n: "getModuleName m k = Inr n"
    and rest: "moduleNamesFrom ms (Suc k) = Inr rest" and ns: "ns = n # rest"
    by (auto split: sum.splits)
  show ?case
  proof (cases i)
    case 0
    with n ns show ?thesis by simp
  next
    case (Suc j)
    with Cons.prems(2) have "j < length ms" by simp
    from Cons.IH [OF rest this] Suc ns show ?thesis by simp
  qed
qed

lemma moduleNamesFrom_length:
  "moduleNamesFrom ms k = Inr ns \<Longrightarrow> length ns = length ms"
  by (induction ms arbitrary: k ns) (auto split: sum.splits)

lemma getModuleName_nonempty: "getModuleName m i = Inr n \<Longrightarrow> n \<noteq> ''''"
  by (cases "(m, i)" rule: getModuleName.cases)
     (auto simp: fallbackName_def split: if_splits sum.splits)

text \<open>
  Claim C5, amended. A call \<^verbatim>\<open>n(k)\<close> whose callee \<open>n\<close> has the role \<^verbatim>\<open>require\<close> in the map
  and whose one argument is a literal with the module id \<open>k\<close> (the number, or its decimal
  string) is returned as \<^verbatim>\<open>require('./<name>')\<close>, where \<^verbatim>\<open><name>\<close> is the entry \<open>k\<close> of the module
  names, when there is such an entry and it is not empty; otherwise the argument is kept
  and only the callee is renamed to its role, so \<^verbatim>\<open>require(99)\<close> stays as it is.

  This holds at every place of a module that the traversal visits. When the module is a
  function expression, the traversal of its body arrives along \<open>path\<close> at such a call, with
  a map in which \<open>n\<close> has the role \<^verbatim>\<open>require\<close>, and the rewriting of the module returns, then
  the result holds the rewritten call at that place. The names are those of the whole
  registry, computed before, and none of them is empty: the id of every module of the
  registry resolves, whether the module is declared before or after the one that requires
  it.

  Through the extractor, for every renderer: in the bundle of
  \<^verbatim>\<open>function(e, t, n){ n(1); }\<close> and \<^verbatim>\<open>function(e, t, n){ e.exports = Foo; }\<close> the content of
  module 0 is rendered from the statement \<^verbatim>\<open>require('./Foo');\<close>.

  A variable declaration is returned as it is and the traversal visits no place below
  it, so a call in a declaration keeps its argument.
\<close>

theorem require_of_known_id_is_rewritten:
  assumes "pm n = Some ''require''" and "v = JNum (int k) \<or> v = JStr (showNat k)"
  shows "remapParams (requireCall n (literal v raw)) pm moduleNames ''require''
       = Inr (requireCall ''require''
                (if k < length moduleNames \<and> moduleNames ! k \<noteq> ''''
                 then literal (JStr (''./'' @ moduleNames ! k))
                        ([CHR 0x27] @ ''./'' @ moduleNames ! k @ [CHR 0x27])
                 else literal v raw))
   \<and> (moduleNamesFrom modules 0 = Inr names
       \<and> own kvs ''type'' = JStr ''FunctionExpression''
       \<and> own kvs ''params'' = JArr params
       \<and> seedParams params 0 Map.empty = Inr seeded
       \<and> visit names (own kvs ''body'') seeded ''require'' path
           = Some (requireCall n (literal v raw), pm, requireName)
       \<and> processWebpackModule (JObj kvs) names = Inr result
      \<longrightarrow> subtree result (AtKey ''body'' # path)
            = requireCall ''require''
                (if k < length modules
                 then literal (JStr (''./'' @ names ! k))
                        ([CHR 0x27] @ ''./'' @ names ! k @ [CHR 0x27])
                 else literal v raw)
          \<and> (k < length modules \<longrightarrow> getModuleName (modules ! k) k = Inr (names ! k)))
   \<and> extractWebpackExpressionModules generate
         (wrapperOf [requiringModule, exportingModule [''e'', ''t'', ''n''] [ident ''Foo'']])
       = (case generate (exprStmt (requireCall ''require''
                           (literal (JStr ''./Foo'') ([CHR 0x27] @ ''./Foo'' @ [CHR 0x27])))) of
            Inl e \<Rightarrow> Inl e
          | Inr first \<Rightarrow>
              (case generate (exprStmt (assignExpr
                                (memberExpr (ident ''module'') (ident ''exports''))
                                (ident ''Foo''))) of
                 Inl e \<Rightarrow> Inl e
               | Inr second \<Rightarrow> Inr [(''module-0'', first), (''Foo'', second)]))
   \<and> (own decl ''type'' = JStr ''VariableDeclaration''
      \<longrightarrow> remapParams (JObj decl) pm moduleNames requireName = Inr (JObj decl)
          \<and> visit moduleNames (JObj decl) pm requireName (AtKey key # path) = None)"
proof (intro conjI impI)
  show atCall: "remapParams (requireCall n (literal v raw)) pm moduleNames ''require''
       = Inr (requireCall ''require''
                (if k < length moduleNames \<and> moduleNames ! k \<noteq> ''''
                 then literal (JStr (''./'' @ moduleNames ! k))
                        ([CHR 0x27] @ ''./'' @ moduleNames ! k @ [CHR 0x27])
                 else literal v raw))" for moduleNames
    using assms by (rule require_rewrite_at_call)
  assume run: "moduleNamesFrom modules 0 = Inr names
       \<and> own kvs ''type'' = JStr ''FunctionExpression''
       \<and> own kvs ''params'' = JArr params
       \<and> seedParams params 0 Map.empty = Inr seeded
       \<and> visit names (own kvs ''body'') seeded ''require'' path
           = Some (requireCall n (literal v raw), pm, requireName)
       \<and> processWebpackModule (JObj kvs) names = Inr result"
  then have visited: "visit names (own kvs ''body'') seeded ''require'' path
           = Some (requireCall n (literal v raw), pm, requireName)" by simp
  then have "truthy (own kvs ''body'')"
    unfolding requireCall_def callExpr_def by (rule visit_truthy)
  with run obtain body where
    body: "remapParams (own kvs ''body'') seeded names ''require'' = Inr body"
    and result: "result = JObj (setField kvs ''body'' body)"
    by (auto split: sum.splits)
  from visit_require [OF visited] have "requireName = ''require''" by simp
  with visit_result [OF visited body] atCall [of names]
  have there: "subtree body path
       = requireCall ''require''
           (if k < length names \<and> names ! k \<noteq> ''''
            then literal (JStr (''./'' @ names ! k)) ([CHR 0x27] @ ''./'' @ names ! k @ [CHR 0x27])
            else literal v raw)"
    by simp
  from run have names: "moduleNamesFrom modules 0 = Inr names" by (rule conjunct1)
  then have len: "length names = length modules" by (rule moduleNamesFrom_length)
  have named: "getModuleName (modules ! k) k = Inr (names ! k)" if "k < length modules"
    using moduleNamesFrom_nth [OF names that] by simp
  then have "names ! k \<noteq> ''''" if "k < length modules"
    using that getModuleName_nonempty by blast
  with there len show "subtree result (AtKey ''body'' # path)
            = requireCall ''require''
                (if k < length modules
                 then literal (JStr (''./'' @ names ! k))
                        ([CHR 0x27] @ ''./'' @ names ! k @ [CHR 0x27])
                 else literal v raw)"
    by (simp add: result own_setField_same)
  show "getModuleName (modules ! k) k = Inr (names ! k)" if "k < length modules"
    using that by (rule named)
next
  show "extractWebpackExpressionModules generate
         (wrapperOf [requiringModule, exportingModule [''e'', ''t'', ''n''] [ident ''Foo'']])
       = (case generate (exprStmt (requireCall ''require''
                           (literal (JStr ''./Foo'') ([CHR 0x27] @ ''./Foo'' @ [CHR 0x27])))) of
            Inl e \<Rightarrow> Inl e
          | Inr first \<Rightarrow>
              (case generate (exprStmt (assignExpr
                                (memberExpr (ident ''module'') (ident ''exports''))
                                (ident ''Foo''))) of
                 Inl e \<Rightarrow> Inl e
               | Inr second \<Rightarrow> Inr [(''module-0'', first), (''Foo'', second)]))"
    by (simp add: extractWebpackExpressionModules_def moduleContent_def wrapperOf_def
        requiringModule_def exportingModule_def requireCall_def eval_defs name_defs
        freeName.simps showNat.simps rewriteRequire_def hasLength1_def arrayGet_def
        requireLiteral_def split: sum.splits)
next
  assume "own decl ''type'' = JStr ''VariableDeclaration''"
  then show "remapParams (JObj decl) pm moduleNames requireName = Inr (JObj decl)"
    and "visit moduleNames (JObj decl) pm requireName (AtKey key # path) = None"
    by simp_all
qed

text \<open>
  The witness: in \<^verbatim>\<open>function(e, t, n){ t.load = function(){ return n(1); }; }\<close>, module 0 of a
  registry whose module 1 is named \<^verbatim>\<open>Foo\<close>, the call in the nested function becomes
  \<^verbatim>\<open>require('./Foo')\<close>; \<^verbatim>\<open>require(99)\<close> with two modules; and the declaration
  \<^verbatim>\<open>var a = require(1);\<close>.
\<close>

theorem require_of_known_id_is_rewritten_witness:
  "[''e'' \<mapsto> ''module'', ''t'' \<mapsto> ''exports'', ''n'' \<mapsto> ''require''] ''n'' = Some ''require''
   \<and> moduleNamesFrom [nestedRequireModule, exportingModule [''e'', ''t'', ''n''] [ident ''Foo'']] 0
       = Inr [''module-0'', ''Foo'']
   \<and> visit [''module-0'', ''Foo''] (field nestedRequireModule ''body'')
         [''e'' \<mapsto> ''module'', ''t'' \<mapsto> ''exports'', ''n'' \<mapsto> ''require''] ''require''
         nestedRequirePath
       = Some (requireCall ''n'' (literal (JNum 1) ''1''),
               [''e'' \<mapsto> ''module'', ''t'' \<mapsto> ''exports'', ''n'' \<mapsto> ''require''], ''require'')
   \<and> processWebpackModule nestedRequireModule [''module-0'', ''Foo'']
       = Inr (functionExpr [''e'', ''t'', ''n'']
                [exprStmt (assignExpr (memberExpr (ident ''exports'') (ident ''load''))
                   (functionExpr []
                      [returnStmt (requireCall ''require''
                         (literal (JStr ''./Foo'') ([CHR 0x27] @ ''./Foo'' @ [CHR 0x27])))]))])
   \<and> subtree (functionExpr [''e'', ''t'', ''n'']
                [exprStmt (assignExpr (memberExpr (ident ''exports'') (ident ''load''))
                   (functionExpr []
                      [returnStmt (requireCall ''require''
                         (literal (JStr ''./Foo'') ([CHR 0x27] @ ''./Foo'' @ [CHR 0x27])))]))])
         (AtKey ''body'' # nestedRequirePath)
       = requireCall ''require''
           (literal (JStr ''./Foo'') ([CHR 0x27] @ ''./Foo'' @ [CHR 0x27]))
   \<and> remapParams (requireCall ''require'' (literal (JNum 99) ''99''))
         [''require'' \<mapsto> ''require''] [''module-0'', ''Foo''] ''require''
       = Inr (requireCall ''require'' (literal (JNum 99) ''99''))
   \<and> remapParams
         (varDecl ''var'' [varDeclarator ''a'' (requireCall ''require'' (literal (JNum 1) ''1''))])
         [''require'' \<mapsto> ''require''] [''module-0'', ''Foo''] ''require''
       = Inr (varDecl ''var''
                [varDeclarator ''a'' (requireCall ''require'' (literal (JNum 1) ''1''))])"
proof -
  let ?pm = "[''e'' \<mapsto> ''module'', ''t'' \<mapsto> ''exports'', ''n'' \<mapsto> ''require'']"
  let ?kvs = "[(''type'', JStr ''FunctionExpression''), (''id'', JNull),
           (''params'', JArr (map ident [''e'', ''t'', ''n''])),
           (''body'', blockStmt
              [exprStmt (assignExpr (memberExpr (ident ''t'') (ident ''load''))
                 (functionExpr []
                    [returnStmt (requireCall ''n'' (literal (JNum 1) ''1''))]))]),
           (''generator'', JBool False), (''expression'', JBool False),
           (''async'', JBool False)]"
  have module: "nestedRequireModule = JObj ?kvs"
    by (simp add: nestedRequireModule_def functionExpr_def)
  have role: "?pm ''n'' = Some ''require''" by simp
  have role99: "[''require'' \<mapsto> ''require''] ''require'' = Some ''require''" by simp
  have id1: "JNum 1 = JNum (int 1) \<or> JNum 1 = JStr (showNat 1)" by simp
  have id99: "JNum 99 = JNum (int 99) \<or> JNum 99 = JStr (showNat 99)" by simp
  have names:
    "moduleNamesFrom [nestedRequireModule, exportingModule [''e'', ''t'', ''n''] [ident ''Foo'']] 0
       = Inr [''module-0'', ''Foo'']"
    by (simp add: nestedRequireModule_def exportingModule_def requireCall_def eval_defs
        name_defs freeName.simps showNat.simps)
  have seeded: "seedParams (map ident [''e'', ''t'', ''n'']) 0 Map.empty = Inr ?pm"
    by (simp add: eval_defs)
  have visited:
    "visit [''module-0'', ''Foo''] (own ?kvs ''body'') ?pm ''require'' nestedRequirePath
       = Some (requireCall ''n'' (literal (JNum 1) ''1''), ?pm, ''require'')"
    by (simp add: nestedRequirePath_def requireCall_def eval_defs)
  have processed:
    "processWebpackModule (JObj ?kvs) [''module-0'', ''Foo'']
       = Inr (functionExpr [''e'', ''t'', ''n'']
                [exprStmt (assignExpr (memberExpr (ident ''exports'') (ident ''load''))
                   (functionExpr []
                      [returnStmt (requireCall ''require''
                         (literal (JStr ''./Foo'') ([CHR 0x27] @ ''./Foo'' @ [CHR 0x27])))]))])"
    by (simp add: requireCall_def eval_defs rewriteRequire_def hasLength1_def arrayGet_def
        requireLiteral_def showNat.simps)
  from role id1 id99 names seeded visited processed
    require_of_known_id_is_rewritten
      [where pm = ?pm and n = "''n''" and v = "JNum 1" and k = 1 and raw = "''1''"
         and modules = "[nestedRequireModule, exportingModule [''e'', ''t'', ''n''] [ident ''Foo'']]"
         and names = "[''module-0'', ''Foo'']" and kvs = ?kvs
         and params = "map ident [''e'', ''t'', ''n'']" and seeded = ?pm
         and path = nestedRequirePath and requireName = "''require''"
         and result = "functionExpr [''e'', ''t'', ''n'']
                [exprStmt (assignExpr (memberExpr (ident ''exports'') (ident ''load''))
                   (functionExpr []
                      [returnStmt (requireCall ''require''
                         (literal (JStr ''./Foo'') ([CHR 0x27] @ ''./Foo'' @ [CHR 0x27])))]))]",
         OF role id1]
    require_of_known_id_is_rewritten
      [where pm = "[''require'' \<mapsto> ''require'']" and n = "''require''" and v = "JNum 99"
         and k = 99 and raw = "''99''" and moduleNames = "[''module-0'', ''Foo'']",
         OF role99 id99, THEN conjunct1]
    require_of_known_id_is_rewritten
      [where pm = "[''require'' \<mapsto> ''require'']" and n = "''require''" and v = "JNum 99"
         and k = 99 and moduleNames = "[''module-0'', ''Foo'']" and requireName = "''require''"
         and decl = "[(''type'', JStr ''VariableDeclaration''),
               (''declarations'',
                JArr [varDeclarator ''a'' (requireCall ''require'' (literal (JNum 1) ''1''))]),
               (''kind'', JStr ''var'')]",
         OF role99 id99, THEN conjunct2, THEN conjunct2, THEN conjunct2, THEN mp,
         THEN conjunct1]
  show ?thesis by (simp add: module field_def own_def varDecl_def)
qed

text \<open>
  Claim C5, as stated, fails. In \<^verbatim>\<open>function(e, t, n){ var a = n(1); }\<close> the callee \<open>n\<close> has the
  role \<^verbatim>\<open>require\<close> and \<open>1\<close> is the id of the module named \<^verbatim>\<open>Foo\<close>, and the call is returned
  as it is: a variable declaration is returned without a visit of its fields. The same
  call as an expression statement is rewritten.
\<close>

theorem require_in_declaration_is_not_rewritten:
  "moduleNamesFrom [declaredRequireModule, exportingModule [''e'', ''t'', ''n''] [ident ''Foo'']] 0
     = Inr [''module-0'', ''Foo'']
   \<and> processWebpackModule declaredRequireModule [''module-0'', ''Foo'']
     = Inr (functionExpr [''e'', ''t'', ''n'']
              [varDecl ''var''
                 [varDeclarator ''a'' (requireCall ''n'' (literal (JNum 1) ''1''))]])
   \<and> processWebpackModule requiringModule [''module-0'', ''Foo'']
     = Inr (functionExpr [''e'', ''t'', ''n'']
              [exprStmt (requireCall ''require''
                 (literal (JStr ''./Foo'') ([CHR 0x27] @ ''./Foo'' @ [CHR 0x27])))])"
  by (simp add: declaredRequireModule_def requiringModule_def exportingModule_def
      requireCall_def eval_defs name_defs freeName.simps showNat.simps rewriteRequire_def
      hasLength1_def arrayGet_def requireLiteral_def)

lemma remapFields_iff:
  "remapFields kvs pm moduleNames requireName = Inr kvs'
     \<longleftrightarrow> list_all2 (fieldRemapped pm moduleNames requireName) kvs kvs'"
proof (induction kvs arbitrary: kvs')
  case Nil
  show ?case by auto
next
  case (Cons p kvs)
  obtain k v where p: "p = (k, v)" by (cases p)
  show ?case
  proof (cases kvs')
    case Nil
    then show ?thesis by (auto simp: p split: sum.splits)
  next
    case (Cons p' rest)
    obtain k' v' where p': "p' = (k', v')" by (cases p')
    show ?thesis
      using Cons.IH [of rest]
      by (auto simp: p p' Cons fieldRemapped_def split: sum.splits)
  qed
qed

lemma remapFields_keys:
  "remapFields kvs pm moduleNames requireName = Inr kvs' \<Longrightarrow> map fst kvs' = map fst kvs"
  unfolding remapFields_iff
  by (induction rule: list_all2_induct) (auto simp: fieldRemapped_def)

lemma remapFields_params:
  "remapFields kvs pm moduleNames requireName = Inr kvs' \<Longrightarrow> own kvs' ''params'' = own kvs ''params''"
  unfolding remapFields_iff
  by (induction rule: list_all2_induct) (auto simp: fieldRemapped_def own_def)

lemma own_setField_other: "k \<noteq> k' \<Longrightarrow> own (setField kvs k v) k' = own kvs k'"
  by (induction kvs k v rule: setField.induct) (auto simp: own_def)

lemma setField_keys_present:
  "k \<in> fst ` set kvs \<Longrightarrow> map fst (setField kvs k v) = map fst kvs"
  by (induction kvs k v rule: setField.induct) auto

lemma rewriteRequire_params:
  "rewriteRequire node pm moduleNames requireName = Inr node'
     \<Longrightarrow> own node' ''params'' = own node ''params''"
  by (auto simp: rewriteRequire_def own_setField_other split: sum.splits if_splits)

lemma rewriteRequire_shape:
  "rewriteRequire kvs pm moduleNames requireName = Inr node \<Longrightarrow>
     node = kvs
     \<or> (\<exists>name. node = setField kvs ''arguments''
           (JArr [literal (JStr (''./'' @ name)) ([CHR 0x27] @ ''./'' @ name @ [CHR 0x27])]))"
  by (auto simp: rewriteRequire_def requireLiteral_literal split: sum.splits if_splits)

text \<open>
  Claim C6, amended. A variable declaration is returned as it is, whatever the map. An
  identifier whose name is in the map is returned with the mapped role as its name. The
  \<^verbatim>\<open>params\<close> field of a result is the \<^verbatim>\<open>params\<close> field of the node. A node of any other kind
  than identifier and variable declaration is returned with every property but
  \<^verbatim>\<open>params\<close> remapped, under the same keys: a call after the require rule, which keeps the
  node or replaces its argument list by one string literal; a function expression with
  the map from which the names of its parameters are removed; every other node with the
  same map. So the result of a tree holds, at every place that the traversal visits, the
  result of the node there under the map in force there.
\<close>

theorem remap_visits_fields_except_params_and_declarations:
  "(own kvs ''type'' = JStr ''VariableDeclaration''
      \<longrightarrow> remapParams (JObj kvs) pm moduleNames requireName = Inr (JObj kvs))
   \<and> (own kvs ''type'' = JStr ''Identifier'' \<and> own kvs ''name'' = JStr n \<and> pm n = Some role
      \<longrightarrow> remapParams (JObj kvs) pm moduleNames requireName
           = Inr (JObj (setField kvs ''name'' (JStr role))))
   \<and> (remapParams (JObj kvs) pm moduleNames requireName = Inr result
      \<longrightarrow> field result ''params'' = own kvs ''params'')
   \<and> (own kvs ''type'' = JStr ''CallExpression''
      \<longrightarrow> (remapParams (JObj kvs) pm moduleNames requireName = Inr (JObj kvs'))
           = (\<exists>node. rewriteRequire kvs pm moduleNames requireName = Inr node
                \<and> (node = kvs
                    \<or> (\<exists>name. node = setField kvs ''arguments''
                          (JArr [literal (JStr (''./'' @ name))
                                   ([CHR 0x27] @ ''./'' @ name @ [CHR 0x27])])))
                \<and> list_all2 (fieldRemapped pm moduleNames requireName) node kvs'))
   \<and> (own kvs ''type'' = JStr ''FunctionExpression''
      \<longrightarrow> (remapParams (JObj kvs) pm moduleNames requireName = Inr (JObj kvs'))
           = (\<exists>params pm'. own kvs ''params'' = JArr params
                \<and> deleteNames params pm = Inr pm'
                \<and> list_all2 (fieldRemapped pm' moduleNames requireName) kvs kvs'))
   \<and> (own kvs ''type'' \<notin> JStr ` {''CallExpression'', ''Identifier'', ''FunctionExpression'',
                                    ''VariableDeclaration''}
      \<longrightarrow> (remapParams (JObj kvs) pm moduleNames requireName = Inr (JObj kvs'))
           = list_all2 (fieldRemapped pm moduleNames requireName) kvs kvs')
   \<and> (visit moduleNames root rootMap rootRequire path = Some (JObj kvs, pm, requireName)
       \<and> remapParams root rootMap moduleNames rootRequire = Inr rootResult
      \<longrightarrow> remapParams (JObj kvs) pm moduleNames requireName = Inr (subtree rootResult path))"
proof (intro conjI impI)
  assume "own kvs ''type'' = JStr ''VariableDeclaration''"
  then show "remapParams (JObj kvs) pm moduleNames requireName = Inr (JObj kvs)" by simp
next
  assume "own kvs ''type'' = JStr ''Identifier'' \<and> own kvs ''name'' = JStr n \<and> pm n = Some role"
  then show "remapParams (JObj kvs) pm moduleNames requireName
           = Inr (JObj (setField kvs ''name'' (JStr role)))"
    by (simp add: inMap_def mapGet_def dom_def)
next
  assume "remapParams (JObj kvs) pm moduleNames requireName = Inr result"
  then show "field result ''params'' = own kvs ''params''"
    by (auto simp: field_def own_setField_other rewriteRequire_params remapFields_params
        split: if_splits sum.splits jsval.splits)
next
  assume call: "own kvs ''type'' = JStr ''CallExpression''"
  show "(remapParams (JObj kvs) pm moduleNames requireName = Inr (JObj kvs'))
           = (\<exists>node. rewriteRequire kvs pm moduleNames requireName = Inr node
                \<and> (node = kvs
                    \<or> (\<exists>name. node = setField kvs ''arguments''
                          (JArr [literal (JStr (''./'' @ name))
                                   ([CHR 0x27] @ ''./'' @ name @ [CHR 0x27])])))
                \<and> list_all2 (fieldRemapped pm moduleNames requireName) node kvs')"
  proof (cases "rewriteRequire kvs pm moduleNames requireName")
    case (Inl e)
    with call show ?thesis by simp
  next
    case (Inr node)
    from rewriteRequire_shape [OF Inr] call Inr show ?thesis
      by (auto simp: remapFields_iff [symmetric] split: sum.splits)
  qed
next
  assume fn: "own kvs ''type'' = JStr ''FunctionExpression''"
  then show "(remapParams (JObj kvs) pm moduleNames requireName = Inr (JObj kvs'))
           = (\<exists>params pm'. own kvs ''params'' = JArr params
                \<and> deleteNames params pm = Inr pm'
                \<and> list_all2 (fieldRemapped pm' moduleNames requireName) kvs kvs')"
    by (auto simp: remapFields_iff [symmetric] split: sum.splits jsval.splits)
next
  assume "own kvs ''type'' \<notin> JStr ` {''CallExpression'', ''Identifier'', ''FunctionExpression'',
                                    ''VariableDeclaration''}"
  then show "(remapParams (JObj kvs) pm moduleNames requireName = Inr (JObj kvs'))
           = list_all2 (fieldRemapped pm moduleNames requireName) kvs kvs'"
    by (auto simp: remapFields_iff [symmetric] split: sum.splits)
next
  assume "visit moduleNames root rootMap rootRequire path = Some (JObj kvs, pm, requireName)
       \<and> remapParams root rootMap moduleNames rootRequire = Inr rootResult"
  then show "remapParams (JObj kvs) pm moduleNames requireName = Inr (subtree rootResult path)"
    using visit_result by blast
qed

text \<open>
  The witness, with \<open>e\<close> mapped to \<^verbatim>\<open>module\<close>: the declaration \<^verbatim>\<open>var x = e;\<close>, the identifier
  \<open>e\<close>, the statement \<^verbatim>\<open>return e;\<close>, the call \<^verbatim>\<open>f(e)\<close>, and the function expressions
  \<^verbatim>\<open>function(x){ return e; }\<close> and \<^verbatim>\<open>function(e){ return e; }\<close>, whose parameter keeps its
  name and hides the map in the body; and the place of \<open>e\<close> in the first function.
\<close>

theorem remap_visits_fields_except_params_and_declarations_witness:
  "remapParams (varDecl ''var'' [varDeclarator ''x'' (ident ''e'')]) [''e'' \<mapsto> ''module''] []
      ''require''
     = Inr (varDecl ''var'' [varDeclarator ''x'' (ident ''e'')])
   \<and> remapParams (ident ''e'') [''e'' \<mapsto> ''module''] [] ''require'' = Inr (ident ''module'')
   \<and> remapParams (returnStmt (ident ''e'')) [''e'' \<mapsto> ''module''] [] ''require''
     = Inr (returnStmt (ident ''module''))
   \<and> remapParams (callExpr (ident ''f'') [ident ''e'']) [''e'' \<mapsto> ''module''] [] ''require''
     = Inr (callExpr (ident ''f'') [ident ''module''])
   \<and> remapParams (functionExpr [''x''] [returnStmt (ident ''e'')]) [''e'' \<mapsto> ''module''] []
        ''require''
     = Inr (functionExpr [''x''] [returnStmt (ident ''module'')])
   \<and> remapParams (functionExpr [''e''] [returnStmt (ident ''e'')]) [''e'' \<mapsto> ''module''] []
        ''require''
     = Inr (functionExpr [''e''] [returnStmt (ident ''e'')])
   \<and> field (functionExpr [''e''] [returnStmt (ident ''e'')]) ''params'' = JArr [ident ''e'']
   \<and> visit [] (functionExpr [''x''] [returnStmt (ident ''e'')]) [''e'' \<mapsto> ''module''] ''require''
        [AtKey ''body'', AtKey ''body'', AtIndex 0, AtKey ''argument'']
     = Some (ident ''e'', [''e'' \<mapsto> ''module''], ''require'')
   \<and> subtree (functionExpr [''x''] [returnStmt (ident ''module'')])
        [AtKey ''body'', AtKey ''body'', AtIndex 0, AtKey ''argument'']
     = ident ''module''"
proof -
  let ?pm = "[''e'' \<mapsto> ''module'']"
  have kept:
    "remapParams (varDecl ''var'' [varDeclarator ''x'' (ident ''e'')]) ?pm [] ''require''
     = Inr (varDecl ''var'' [varDeclarator ''x'' (ident ''e'')])"
    unfolding varDecl_def
    by (rule remap_visits_fields_except_params_and_declarations
          [THEN conjunct1, THEN mp]) (simp add: own_def)
  have renamed:
    "remapParams (ident ''e'') ?pm [] ''require''
     = Inr (JObj (setField [(''type'', JStr ''Identifier''), (''name'', JStr ''e'')] ''name''
                    (JStr ''module'')))"
    unfolding ident_def
    by (rule remap_visits_fields_except_params_and_declarations
          [where n = "''e''", THEN conjunct2, THEN conjunct1, THEN mp]) (simp add: own_def)
  then have ident: "remapParams (ident ''e'') ?pm [] ''require'' = Inr (ident ''module'')"
    by (simp add: ident_def)
  have "list_all2 (fieldRemapped ?pm [] ''require'')
          [(''type'', JStr ''ReturnStatement''), (''argument'', ident ''e'')]
          [(''type'', JStr ''ReturnStatement''), (''argument'', ident ''module'')]"
    using ident by (simp add: fieldRemapped_def)
  then have visited:
    "remapParams (returnStmt (ident ''e'')) ?pm [] ''require''
     = Inr (returnStmt (ident ''module''))"
    unfolding returnStmt_def
    by (subst remap_visits_fields_except_params_and_declarations
          [THEN conjunct2, THEN conjunct2, THEN conjunct2, THEN conjunct2, THEN conjunct2,
           THEN conjunct1, THEN mp]) (simp_all add: own_def)
  have other: "remapParams (ident ''f'') ?pm [] ''require'' = Inr (ident ''f'')"
    by (simp add: eval_defs)
  have call:
    "remapParams (callExpr (ident ''f'') [ident ''e'']) ?pm [] ''require''
     = Inr (callExpr (ident ''f'') [ident ''module''])"
    unfolding callExpr_def
    by (subst remap_visits_fields_except_params_and_declarations
          [THEN conjunct2, THEN conjunct2, THEN conjunct2, THEN conjunct1, THEN mp])
       (simp_all add: own_def rewriteRequire_def ident_def inMap_def objectPrototypeKeys_def
          fieldRemapped_def mapGet_def)
  have fn:
    "remapParams (functionExpr [''x''] [returnStmt (ident ''e'')]) ?pm [] ''require''
     = Inr (functionExpr [''x''] [returnStmt (ident ''module'')])"
    unfolding functionExpr_def
    by (subst remap_visits_fields_except_params_and_declarations
          [THEN conjunct2, THEN conjunct2, THEN conjunct2, THEN conjunct2, THEN conjunct1,
           THEN mp])
       (simp_all add: eval_defs fieldRemapped_def)
  have shadowed:
    "remapParams (functionExpr [''e''] [returnStmt (ident ''e'')]) ?pm [] ''require''
     = Inr (functionExpr [''e''] [returnStmt (ident ''e'')])"
    unfolding functionExpr_def
    by (subst remap_visits_fields_except_params_and_declarations
          [THEN conjunct2, THEN conjunct2, THEN conjunct2, THEN conjunct2, THEN conjunct1,
           THEN mp])
       (simp_all add: eval_defs fieldRemapped_def)
  from shadowed have params:
    "field (functionExpr [''e''] [returnStmt (ident ''e'')]) ''params''
     = own [(''type'', JStr ''FunctionExpression''), (''id'', JNull),
           (''params'', JArr (map ident [''e''])), (''body'', blockStmt [returnStmt (ident ''e'')]),
           (''generator'', JBool False), (''expression'', JBool False),
           (''async'', JBool False)] ''params''"
    unfolding functionExpr_def
    by (rule remap_visits_fields_except_params_and_declarations
          [THEN conjunct2, THEN conjunct2, THEN conjunct1, THEN mp])
  have arrives:
    "visit [] (functionExpr [''x''] [returnStmt (ident ''e'')]) ?pm ''require''
        [AtKey ''body'', AtKey ''body'', AtIndex 0, AtKey ''argument'']
     = Some (ident ''e'', ?pm, ''require'')"
    by (simp add: eval_defs)
  from arrives fn have "remapParams (ident ''e'') ?pm [] ''require''
     = Inr (subtree (functionExpr [''x''] [returnStmt (ident ''module'')])
              [AtKey ''body'', AtKey ''body'', AtIndex 0, AtKey ''argument''])"
    unfolding ident_def [of "''e''"]
    by (intro remap_visits_fields_except_params_and_declarations
          [THEN conjunct2, THEN conjunct2, THEN conjunct2, THEN conjunct2, THEN conjunct2,
           THEN conjunct2, THEN mp] conjI)
  with ident have place:
    "subtree (functionExpr [''x''] [returnStmt (ident ''module'')])
        [AtKey ''body'', AtKey ''body'', AtIndex 0, AtKey ''argument'']
     = ident ''module''"
    by simp
  from kept ident visited call fn shadowed params arrives place show ?thesis
    by (simp add: own_def)
qed

text \<open>
  Claim C6, as stated, fails. In the module
  \<^verbatim>\<open>function(e, t, n){ var x = e; e; }\<close> the identifier \<open>e\<close> maps to the role \<^verbatim>\<open>module\<close>; the
  expression statement is renamed, the initializer of the declaration is not, since a
  variable declaration is returned without a visit of its fields.
\<close>

theorem declaration_initializer_is_not_renamed:
  "processWebpackModule
     (functionExpr [''e'', ''t'', ''n'']
        [varDecl ''var'' [varDeclarator ''x'' (ident ''e'')], exprStmt (ident ''e'')]) []
   = Inr (functionExpr [''e'', ''t'', ''n'']
        [varDecl ''var'' [varDeclarator ''x'' (ident ''e'')], exprStmt (ident ''module'')])"
  by (simp add: eval_defs)












section \<open>Properties of the export-name inferrer\<close>

lemma no_export_keeps:
  "noExportAssignment t \<Longrightarrow> findModuleExports t acc = Inr acc"
  "noExportInElements xs \<Longrightarrow> exportsOfElements xs acc = Inr acc"
  "noExportInFields kvs \<Longrightarrow> exportsOfFields kvs acc = Inr acc"
proof (induction t and xs and kvs arbitrary: acc and acc and acc
    rule: noExportAssignment_noExportInElements_noExportInFields.induct)
  case (2 kvs)
  then show ?case
    by (auto simp: recordExport_def split: if_splits sum.splits jsval.splits)
qed auto

text \<open>
  Claim C8. When the body of a module holds no assignment whose flattened left side
  matches \<^verbatim>\<open>(anything.)?exports\<close>, the export inference on the body yields the empty
  mapping, the name of the module with id \<open>i\<close> is \<^verbatim>\<open>module-i\<close>, and in the names of a registry
  array the module at position \<open>i\<close> has that name.
\<close>

theorem module_without_export_is_named_by_position:
  assumes "noExportAssignment (own kvs ''body'')"
  shows "findModuleExports (own kvs ''body'') [] = Inr []
    \<and> getModuleName (JObj kvs) i = Inr (''module-'' @ showNat i)
    \<and> (\<forall>ms ns. i < length ms \<and> ms ! i = JObj kvs \<and> moduleNamesFrom ms 0 = Inr ns
          \<longrightarrow> ns ! i = ''module-'' @ showNat i)"
proof (intro conjI allI impI)
  show empty: "findModuleExports (own kvs ''body'') [] = Inr []"
    using assms by (rule no_export_keeps)
  then show name: "getModuleName (JObj kvs) i = Inr (''module-'' @ showNat i)"
    by (simp add: fallbackName_def)
  fix ms ns
  assume "i < length ms \<and> ms ! i = JObj kvs \<and> moduleNamesFrom ms 0 = Inr ns"
  with moduleNamesFrom_nth [of ms 0 ns i] name
  show "ns ! i = ''module-'' @ showNat i" by simp
qed

text \<open>
  The witness: the module \<^verbatim>\<open>function(e, t, n){ t.value = Foo; n(1); }\<close> as module 3, and
  at position 1 of a registry.
\<close>

theorem module_without_export_is_named_by_position_witness:
  "noExportAssignment (field plainModule ''body'')
   \<and> findModuleExports (field plainModule ''body'') [] = Inr []
   \<and> getModuleName plainModule 3 = Inr ''module-3''
   \<and> moduleNamesFrom [fooModule, plainModule] 0 = Inr [''Foo'', ''module-1'']"
proof -
  let ?kvs = "[(''type'', JStr ''FunctionExpression''), (''id'', JNull),
           (''params'', JArr (map ident [''e'', ''t'', ''n''])),
           (''body'', blockStmt
              [exprStmt (assignExpr (memberExpr (ident ''t'') (ident ''value'')) (ident ''Foo'')),
               exprStmt (requireCall ''n'' (literal (JNum 1) ''1''))]),
           (''generator'', JBool False), (''expression'', JBool False),
           (''async'', JBool False)]"
  have plain: "plainModule = JObj ?kvs" by (simp add: plainModule_def functionExpr_def)
  have body: "noExportAssignment (own ?kvs ''body'')"
    by (simp add: requireCall_def node_defs own_def isExportsPath_def)
  have names: "moduleNamesFrom [fooModule, plainModule] 0 = Inr [''Foo'', getName]"
    if "getModuleName plainModule 1 = Inr getName" for getName
    using that
    by (simp add: fooModule_def exportingModule_def eval_defs name_defs freeName.simps)
  from module_without_export_is_named_by_position [OF body, of 3]
    module_without_export_is_named_by_position [OF body, of 1]
    body names [of "''module-1''"]
  show ?thesis
    by (simp add: plain field_def showNat.simps)
qed




















section \<open>Properties of the renamer on a store\<close>

lemma unchanged_refl: "unchanged h h"
  by (simp add: unchanged_def)

lemma unchanged_trans: "unchanged h1 h2 \<Longrightarrow> unchanged h2 h3 \<Longrightarrow> unchanged h1 h3"
proof -
  assume a: "unchanged h1 h2" and b: "unchanged h2 h3"
  then have len: "length h1 \<le> length h2" "length h2 \<le> length h3"
    by (simp_all add: unchanged_def)
  from a b have "take (length h1) (take (length h2) h3) = h1" by (simp add: unchanged_def)
  with len show ?thesis by (simp add: unchanged_def min_def)
qed

lemma unchanged_alloc: "alloc h c = (a, h') \<Longrightarrow> unchanged h h' \<and> a = length h \<and> length h' = Suc (length h)"
  by (auto simp: alloc_def unchanged_def)

lemma unchanged_update: "unchanged h0 h \<Longrightarrow> length h0 \<le> a \<Longrightarrow> unchanged h0 (h[a := c])"
  by (simp add: unchanged_def)

lemma unchanged_length: "unchanged h h' \<Longrightarrow> length h \<le> length h'"
  by (simp add: unchanged_def)

lemma forEachH_invariant:
  assumes "forEachH f xs h = (r, h')"
    and "P h"
    and "\<And>x hi ri hj. x \<in> set xs \<Longrightarrow> P hi \<Longrightarrow> f x hi = (ri, hj) \<Longrightarrow> P hj"
  shows "P h'"
  using assms
proof (induction xs arbitrary: h)
  case Nil
  then show ?case by simp
next
  case (Cons x xs)
  obtain ri hj where step: "f x h = (ri, hj)" by (cases "f x h")
  with Cons.prems(2,3) have inv: "P hj" by (metis list.set_intros(1))
  show ?case
  proof (cases ri)
    case (Inl e)
    with step Cons.prems(1) inv show ?thesis by simp
  next
    case (Inr u)
    with step Cons.prems(1) have "forEachH f xs hj = (r, h')" by simp
    from Cons.IH [OF this inv] Cons.prems(3) show ?thesis by (metis list.set_intros(2))
  qed
qed

lemma grown_write: "grown h0 n h \<Longrightarrow> length h0 \<le> a \<Longrightarrow> grown h0 n (writeField h a k v)"
  by (simp add: grown_def writeField_def unchanged_update)

lemma grown_writeElement:
  "grown h0 n h \<Longrightarrow> length h0 \<le> a \<Longrightarrow> grown h0 n (writeElement h a i v)"
  by (simp add: grown_def writeElement_def unchanged_update)

lemma grown_step: "grown h0 n h \<Longrightarrow> unchanged h h' \<Longrightarrow> grown h0 n h'"
  using unchanged_trans unchanged_length by (fastforce simp: grown_def)

lemma rewriteRequireH_grown:
  assumes "rewriteRequireH h node pm moduleNames requireName = (r, h')"
    and "grown h0 n h" and "length h0 \<le> node"
  shows "grown h0 n h'"
proof (cases "h' = h")
  case True
  with assms(2) show ?thesis by simp
next
  case False
  with assms(1) obtain s where
    h': "h' = writeField ((h @ [requireLiteralH s]) @ [CArr [HRef (length h)]]) node
               ''arguments'' (HRef (Suc (length h)))"
    by (auto simp: rewriteRequireH_def alloc_def split: sum.splits if_splits)
  have "unchanged h ((h @ [requireLiteralH s]) @ [CArr [HRef (length h)]])"
    by (simp add: unchanged_def)
  with assms(2) have "grown h0 n ((h @ [requireLiteralH s]) @ [CArr [HRef (length h)]])"
    by (rule grown_step)
  from this assms(3) show ?thesis unfolding h' by (rule grown_write)
qed

lemma remapParamsH_frame:
  "remapParamsH depth h srcNode pm moduleNames requireName = (r, h')
     \<Longrightarrow> unchanged h h'
       \<and> (\<forall>v. r = Inr v \<longrightarrow> (v = srcNode \<and> cellAt h srcNode = None) \<or> freshIn h h' v)"
proof (induction depth arbitrary: h srcNode pm requireName r h')
  case 0
  then show ?case by (auto simp: unchanged_refl)
next
  case (Suc depth)
  note IH = Suc.IH
  have call: "grown h n hj"
    if "grown h n hi" and "remapParamsH depth hi v q moduleNames rq = (ri, hj)"
    for n hi hj v q rq ri
    using that IH [of hi v q rq ri hj] grown_step by blast
  show ?case
  proof (cases "cellAt h srcNode")
    case None
    with Suc.prems show ?thesis by (auto simp: unchanged_refl)
  next
    case (Some c)
    show ?thesis
    proof (cases c)
      case (CArr xs)
      show ?thesis
      proof (cases "getScopeVariablesH depth h srcNode []")
        case (Inl e)
        with Suc.prems Some CArr show ?thesis by (auto simp: unchanged_refl)
      next
        case vars: (Inr scopeVariables)
        show ?thesis
        proof (cases "deleteNamesH h scopeVariables pm")
          case (Inl e)
          with Suc.prems Some CArr vars show ?thesis by (auto simp: unchanged_refl)
        next
          case (Inr pm')
          let ?h1 = "h @ [CArr (replicate (length xs) HUndefined)]"
          let ?body = "\<lambda>i hi.
                 case remapParamsH depth hi (elementsAt hi srcNode ! i) pm' moduleNames ''require'' of
                   (Inl e, hj) \<Rightarrow> (Inl e, hj)
                 | (Inr r, hj) \<Rightarrow> (Inr (), writeElement hj (length h) i r)"
          obtain u h2 where loop: "forEachH ?body [0..<length xs] ?h1 = (u, h2)"
            by (cases "forEachH ?body [0..<length xs] ?h1")
          have start: "grown h (Suc (length h)) ?h1" by (simp add: grown_def unchanged_def)
          have "grown h (Suc (length h)) h2"
          proof (rule forEachH_invariant [where P = "grown h (Suc (length h))", OF loop start])
            fix i hi ri hj
            assume inv: "grown h (Suc (length h)) hi" and step: "?body i hi = (ri, hj)"
            obtain rr hk where rec:
              "remapParamsH depth hi (elementsAt hi srcNode ! i) pm' moduleNames ''require'' = (rr, hk)"
              by (cases "remapParamsH depth hi (elementsAt hi srcNode ! i) pm' moduleNames ''require''")
            from call [OF inv rec] have "grown h (Suc (length h)) hk" .
            with step rec show "grown h (Suc (length h)) hj"
              by (cases rr) (auto simp: grown_writeElement)
          qed
          with Suc.prems Some CArr vars Inr loop show ?thesis
            by (cases u) (auto simp: alloc_def grown_def freshIn_def)
        qed
      qed
    next
      case (CObj kvs)
      let ?h1 = "h @ [CObj kvs]"
      let ?node = "length h"
      let ?switch = "(if ownH kvs ''type'' = HStr ''CallExpression'' then
                        (case rewriteRequireH ?h1 ?node pm moduleNames requireName of
                           (Inl e, h2) \<Rightarrow> (Inl e, h2)
                         | (Inr u, h2) \<Rightarrow> (Inr pm, h2))
                      else if ownH kvs ''type'' = HStr ''Identifier'' then
                        (if inMap pm (keyOf ?h1 (ownH kvs ''name''))
                         then (Inr pm, writeField ?h1 ?node ''name''
                                         (mapGetH pm (keyOf ?h1 (ownH kvs ''name''))))
                         else (Inr pm, ?h1))
                      else if ownH kvs ''type'' = HStr ''FunctionExpression'' then
                        (case cellAt ?h1 (ownH kvs ''params'') of
                           Some (CArr params) \<Rightarrow>
                             (case deleteNamesH ?h1 params pm of
                                Inl e \<Rightarrow> (Inl e, ?h1)
                              | Inr pm' \<Rightarrow> (Inr pm', ?h1))
                         | other \<Rightarrow> (Inl TypeError, ?h1))
                      else (Inr pm, ?h1))"
      obtain s h2 where switch: "?switch = (s, h2)" by (cases ?switch)
      have start: "grown h (Suc (length h)) ?h1" by (simp add: grown_def unchanged_def)
      have after: "grown h (Suc (length h)) h2"
      proof (cases "ownH kvs ''type'' = HStr ''CallExpression''")
        case True
        obtain u hr where rw: "rewriteRequireH ?h1 ?node pm moduleNames requireName = (u, hr)"
          by (cases "rewriteRequireH ?h1 ?node pm moduleNames requireName")
        from rewriteRequireH_grown [OF rw start] have "grown h (Suc (length h)) hr" by simp
        with switch True rw show ?thesis by (cases u) auto
      next
        case False
        with switch start show ?thesis
          by (auto simp: grown_write split: if_splits option.splits cell.splits sum.splits)
      qed
      show ?thesis
      proof (cases s)
        case (Inl e)
        with Suc.prems Some CObj switch after show ?thesis
          by (auto simp: alloc_def grown_def)
      next
        case (Inr pm')
        show ?thesis
        proof (cases "ownH kvs ''type'' = HStr ''Identifier''
                       \<or> ownH kvs ''type'' = HStr ''VariableDeclaration''")
          case True
          with Suc.prems Some CObj switch after Inr show ?thesis
            by (auto simp: alloc_def grown_def freshIn_def)
        next
          case False
          let ?body = "\<lambda>key hi.
                 if key = ''params'' then (Inr (), hi)
                 else
                   (case remapParamsH depth hi (ownH (fieldsAt hi (HRef ?node)) key) pm'
                           moduleNames requireName of
                      (Inl e, hj) \<Rightarrow> (Inl e, hj)
                    | (Inr r, hj) \<Rightarrow> (Inr (), writeField hj ?node key r))"
          obtain u h3 where loop:
            "forEachH ?body (map fst (fieldsAt h2 (HRef ?node))) h2 = (u, h3)"
            by (cases "forEachH ?body (map fst (fieldsAt h2 (HRef ?node))) h2")
          have "grown h (Suc (length h)) h3"
          proof (rule forEachH_invariant [where P = "grown h (Suc (length h))", OF loop after])
            fix key hi ri hj
            assume inv: "grown h (Suc (length h)) hi" and step: "?body key hi = (ri, hj)"
            show "grown h (Suc (length h)) hj"
            proof (cases "key = ''params''")
              case True
              with step inv show ?thesis by simp
            next
              case notParams: False
              obtain rr hk where rec:
                "remapParamsH depth hi (ownH (fieldsAt hi (HRef ?node)) key) pm'
                   moduleNames requireName = (rr, hk)"
                by (cases "remapParamsH depth hi (ownH (fieldsAt hi (HRef ?node)) key) pm'
                   moduleNames requireName")
              from call [OF inv rec] have "grown h (Suc (length h)) hk" .
              with step rec notParams show ?thesis
                by (cases rr) (auto simp: grown_write)
            qed
          qed
          with Suc.prems Some CObj switch Inr False loop show ?thesis
            by (cases u) (auto simp: alloc_def grown_def freshIn_def)
        qed
      qed
    qed
  qed
qed

lemma processWebpackModuleH_frame:
  assumes "processWebpackModuleH depth h module moduleNames = (r, h')"
  shows "unchanged h h' \<and> (\<forall>v. r = Inr v \<longrightarrow> (v = module \<and> h' = h) \<or> freshIn h h' v)"
proof (cases "fieldH h module ''type''")
  case (Inl e)
  with assms show ?thesis by (auto simp: processWebpackModuleH_def unchanged_refl)
next
  case ty: (Inr ty)
  show ?thesis
  proof (cases "ty = HStr ''FunctionExpression'' \<and> truthyH (ownH (fieldsAt h module) ''body'')")
    case False
    with assms ty show ?thesis by (auto simp: processWebpackModuleH_def unchanged_refl)
  next
    case isFn: True
    show ?thesis
    proof (cases "\<exists>params. cellAt h (ownH (fieldsAt h module) ''params'') = Some (CArr params)")
      case False
      with assms ty isFn show ?thesis
        by (auto simp: processWebpackModuleH_def unchanged_refl split: option.splits cell.splits)
    next
      case True
      then obtain params where
        params: "cellAt h (ownH (fieldsAt h module) ''params'') = Some (CArr params)" by blast
      show ?thesis
      proof (cases "seedParamsH h params")
        case (Inl e)
        with assms ty isFn params show ?thesis
          by (auto simp: processWebpackModuleH_def unchanged_refl)
      next
        case pm: (Inr pm)
        let ?h1 = "h @ [CObj []]"
        obtain rr h2 where rec:
          "remapParamsH depth ?h1 (ownH (fieldsAt ?h1 module) ''body'') pm moduleNames ''require''
             = (rr, h2)"
          by (cases "remapParamsH depth ?h1 (ownH (fieldsAt ?h1 module) ''body'') pm moduleNames
                ''require''")
        from remapParamsH_frame [OF rec] have step: "unchanged ?h1 h2" by simp
        have "unchanged h ?h1" by (simp add: unchanged_def)
        with step have h2: "unchanged h h2" and len: "Suc (length h) \<le> length h2"
          using unchanged_trans unchanged_length by fastforce+
        show ?thesis
        proof (cases rr)
          case (Inl e)
          with assms ty isFn params pm rec h2 show ?thesis
            by (auto simp: processWebpackModuleH_def alloc_def)
        next
          case (Inr body)
          let ?h3 = "h2 @ [CObj [(''body'', body)]]"
          from assms ty isFn params pm rec Inr have r: "r = Inr (HRef (length h))"
            and h': "h' = ?h3[length h := CObj (setFieldH (fieldsAt ?h3 module) ''body'' body)]"
            by (auto simp: processWebpackModuleH_def alloc_def)
          have "unchanged h2 ?h3" by (simp add: unchanged_def)
          with h2 have "unchanged h ?h3" by (rule unchanged_trans)
          then have "unchanged h h'" unfolding h' by (rule unchanged_update) simp
          moreover from len have "freshIn h h' (HRef (length h))" by (simp add: freshIn_def h')
          ultimately show ?thesis using r by simp
        qed
      qed
    qed
  qed
qed

lemma exampleHeap_eq: "exampleHeap =
   [CObj [(''type'', HStr ''Identifier''), (''name'', HStr ''e'')],
    CArr [HRef 0],
    CObj [(''type'', HStr ''Identifier''), (''name'', HStr ''e'')],
    CObj [(''type'', HStr ''ReturnStatement''), (''argument'', HRef 2)],
    CArr [HRef 3],
    CObj [(''type'', HStr ''BlockStatement''), (''body'', HRef 4)],
    CObj [(''type'', HStr ''FunctionExpression''), (''id'', HNull), (''params'', HRef 1),
          (''body'', HRef 5), (''generator'', HBool False), (''expression'', HBool False),
          (''async'', HBool False)]]"
  by (simp add: exampleHeap_def exampleTree_def node_defs eval_nat_numeral)

lemma exampleModule_eq: "exampleModule = HRef 6"
  by (simp add: exampleModule_def exampleTree_def node_defs eval_nat_numeral)

text \<open>
  Claim C9. Whatever the store holds and however the call ends (also when it throws),
  \<^verbatim>\<open>remapParams\<close> and \<^verbatim>\<open>processWebpackModule\<close> leave every cell that existed before the call
  as it was: no node of the input is written. A value returned by \<^verbatim>\<open>remapParams\<close> is the
  argument itself when that is not an object, and otherwise the address of a cell allocated
  by the call; \<^verbatim>\<open>processWebpackModule\<close> returns the module itself (and allocates nothing)
  or the address of a cell allocated by the call.
\<close>

theorem input_cells_are_never_written:
  "(remapParamsH depth h srcNode pm moduleNames requireName = (r, h')
      \<longrightarrow> unchanged h h'
          \<and> (\<forall>v. r = Inr v \<longrightarrow> (v = srcNode \<and> cellAt h srcNode = None) \<or> freshIn h h' v))
   \<and> (processWebpackModuleH depth h module moduleNames = (r2, h2)
      \<longrightarrow> unchanged h h2
          \<and> (\<forall>v. r2 = Inr v \<longrightarrow> (v = module \<and> h2 = h) \<or> freshIn h h2 v))"
proof (rule conjI)
  show "remapParamsH depth h srcNode pm moduleNames requireName = (r, h')
      \<longrightarrow> unchanged h h'
          \<and> (\<forall>v. r = Inr v \<longrightarrow> (v = srcNode \<and> cellAt h srcNode = None) \<or> freshIn h h' v)"
    by (rule impI) (rule remapParamsH_frame)
  show "processWebpackModuleH depth h module moduleNames = (r2, h2)
      \<longrightarrow> unchanged h h2
          \<and> (\<forall>v. r2 = Inr v \<longrightarrow> (v = module \<and> h2 = h) \<or> freshIn h h2 v)"
    by (rule impI) (rule processWebpackModuleH_frame)
qed

text \<open>
  The witness: the module \<^verbatim>\<open>function(e){ return e; }\<close> on a store of seven cells. The call
  returns a new cell; the store after the call still reads as the same module at the old
  address and as \<^verbatim>\<open>function(e){ return module; }\<close> at the new one, which is the result of
  the first model.
\<close>

theorem input_cells_are_never_written_witness:
  "unchanged exampleHeap (snd (processWebpackModuleH 8 exampleHeap exampleModule []))
   \<and> fst (processWebpackModuleH 8 exampleHeap exampleModule []) = Inr (HRef 7)
   \<and> freshIn exampleHeap (snd (processWebpackModuleH 8 exampleHeap exampleModule [])) (HRef 7)
   \<and> readTree 8 (snd (processWebpackModuleH 8 exampleHeap exampleModule [])) exampleModule
       = Some exampleTree
   \<and> readTree 8 (snd (processWebpackModuleH 8 exampleHeap exampleModule [])) (HRef 7)
       = Some (functionExpr [''e''] [returnStmt (ident ''module'')])
   \<and> processWebpackModule exampleTree []
       = Inr (functionExpr [''e''] [returnStmt (ident ''module'')])"
proof -
  let ?run = "processWebpackModuleH 8 exampleHeap exampleModule []"
  have run: "?run =
    (Inr (HRef 7),
     exampleHeap @
     [CObj [(''type'', HStr ''FunctionExpression''), (''id'', HNull), (''params'', HRef 1),
            (''body'', HRef 8), (''generator'', HBool False), (''expression'', HBool False),
            (''async'', HBool False)],
      CObj [(''type'', HStr ''BlockStatement''), (''body'', HRef 9)],
      CArr [HRef 10],
      CObj [(''type'', HStr ''ReturnStatement''), (''argument'', HRef 11)],
      CObj [(''type'', HStr ''Identifier''), (''name'', HStr ''module'')],
      CObj [(''body'', HRef 8)]])"
    by (simp add: exampleHeap_eq exampleModule_eq store_defs eval_nat_numeral inMap_def
        setParam_def WEBPACK_MODULE_PARAMS_def objectPrototypeKeys_def)
  have pair: "?run = (fst ?run, snd ?run)" by simp
  from input_cells_are_never_written
         [where h = exampleHeap and module = exampleModule and depth = 8 and moduleNames = "[]"
            and ?r2.0 = "fst ?run" and ?h2.0 = "snd ?run", THEN conjunct2, THEN mp, OF pair]
  have frame: "unchanged exampleHeap (snd ?run)" by simp
  have result: "fst ?run = Inr (HRef 7)" by (simp only: run fst_conv)
  have fresh: "freshIn exampleHeap (snd ?run) (HRef 7)"
    apply (simp only: run snd_conv)
    apply (simp add: freshIn_def exampleHeap_eq)
    done
  have before: "readTree 8 (snd ?run) exampleModule = Some exampleTree"
    apply (simp only: run snd_conv)
    apply (simp add: exampleHeap_eq exampleModule_eq exampleTree_def node_defs cellAt_def
        eval_nat_numeral)
    done
  have after: "readTree 8 (snd ?run) (HRef 7)
       = Some (functionExpr [''e''] [returnStmt (ident ''module'')])"
    apply (simp only: run snd_conv)
    apply (simp add: exampleHeap_eq node_defs cellAt_def eval_nat_numeral)
    done
  have pure: "processWebpackModule exampleTree []
       = Inr (functionExpr [''e''] [returnStmt (ident ''module'')])"
    by (simp add: exampleTree_def eval_defs)
  from frame result fresh before after pure show ?thesis by simp
qed

end
